(* ===== verification/Prelude.thy ===== *)
theory Prelude
  imports Main "HOL-Library.Sublist"
begin

text \<open>
  Shared vocabulary of the development. JavaScript objects are modelled as association
  lists from property names to values, in property-creation order (the order in which
  \<open>Object.entries\<close> and \<open>JSON.stringify\<close> visit them). Two operations of the language
  act on them in the sources:
  \<^item> \<open>assign k v obj\<close> is the property assignment \<open>obj[k] = v\<close>: an existing property
    keeps its position and gets the new value, a new one is appended;
  \<^item> \<open>spread xs ys\<close> is the object literal \<open>{...xs, ...ys}\<close>: the properties of
    \<open>ys\<close> are assigned one after the other onto a copy of \<open>xs\<close>.
  The collection \<open>obj_simps\<close> gathers the facts about them that the component theories
  use with \<open>simp add:\<close>.
\<close>

named_theorems obj_simps "facts about JavaScript object operations"

type_synonym ('k, 'v) obj = "('k \<times> 'v) list"

fun assign :: "'k \<Rightarrow> 'v \<Rightarrow> ('k, 'v) obj \<Rightarrow> ('k, 'v) obj" where
  "assign k v [] = [(k, v)]"
| "assign k v ((k', v') # xs) = (if k' = k then (k, v) # xs else (k', v') # assign k v xs)"

definition spread :: "('k, 'v) obj \<Rightarrow> ('k, 'v) obj \<Rightarrow> ('k, 'v) obj" where
  "spread xs ys = fold (\<lambda>(k, v). assign k v) ys xs"

abbreviation keys :: "('k, 'v) obj \<Rightarrow> 'k list" where
  "keys xs \<equiv> map fst xs"

subsection \<open>Property assignment\<close>

lemma map_of_assign [obj_simps]: "map_of (assign k v xs) = (map_of xs)(k \<mapsto> v)"
  by (induction xs) (auto simp: fun_eq_iff)

lemma keys_assign [obj_simps]:
  "keys (assign k v xs) = (if k \<in> set (keys xs) then keys xs else keys xs @ [k])"
  by (induction xs) force+

lemma set_keys_assign [obj_simps]: "fst ` set (assign k v xs) = insert k (fst ` set xs)"
  by (induction k v xs rule: assign.induct) (simp_all add: insert_commute)

lemma distinct_keys_assign [obj_simps]:
  "distinct (keys xs) \<Longrightarrow> distinct (keys (assign k v xs))"
  by (simp add: keys_assign)

lemma assign_idem [obj_simps]: "assign k v (assign k w xs) = assign k v xs"
  by (induction xs) (auto split: if_splits)

lemma length_assign_le: "length (assign k v xs) \<le> Suc (length xs)"
  by (induction xs) (auto split: if_splits)

subsection \<open>Object spread\<close>

lemma set_assign_sub: "set (assign k v xs) \<subseteq> insert (k, v) (set xs)"
  by (induction xs) (auto split: if_splits)

lemma spread_Nil [simp]: "spread xs [] = xs"
  by (simp add: spread_def)

lemma spread_Cons [simp]: "spread xs ((k, v) # ys) = spread (assign k v xs) ys"
  by (simp add: spread_def)

lemma spread_snoc: "spread xs (ys @ [(k, v)]) = assign k v (spread xs ys)"
  by (simp add: spread_def)

text \<open>A later property of the spread object overrides an earlier one of the same name.\<close>

lemma map_of_spread [obj_simps]: "map_of (spread xs ys) = map_of xs ++ map_of (rev ys)"
proof (induction ys arbitrary: xs)
  case Nil
  then show ?case by simp
next
  case (Cons p ys)
  obtain k v where p: "p = (k, v)" by (cases p)
  have "map_of (spread xs (p # ys)) = map_of (assign k v xs) ++ map_of (rev ys)"
    using Cons.IH by (simp add: p)
  also have "\<dots> = map_of xs ++ map_of (rev (p # ys))"
    by (auto simp: p map_of_assign map_add_def fun_eq_iff map_of_append split: option.splits)
  finally show ?case .
qed

lemma map_of_rev_distinct: "distinct (keys ys) \<Longrightarrow> map_of (rev ys) = map_of ys"
proof (induction ys)
  case Nil
  then show ?case by simp
next
  case (Cons p ys)
  obtain a b where p: "p = (a, b)" by (cases p)
  have fresh: "map_of ys a = None" and IH: "map_of (rev ys) = map_of ys"
    using Cons by (simp_all add: p map_of_eq_None_iff)
  show ?case
    by (simp add: p IH fun_eq_iff map_add_def fresh split: option.split)
qed

text \<open>The properties of the left operand keep their order, new ones come after them.\<close>

lemma keys_spread_prefix [obj_simps]: "prefix (keys xs) (keys (spread xs ys))"
proof (induction ys arbitrary: xs)
  case Nil
  then show ?case by simp
next
  case (Cons p ys)
  obtain k v where p: "p = (k, v)" by (cases p)
  have "prefix (keys xs) (keys (assign k v xs))"
    by (simp add: keys_assign)
  also have "prefix (keys (assign k v xs)) (keys (spread (assign k v xs) ys))"
    by (rule Cons.IH)
  finally show ?case by (simp add: p)
qed

lemma set_keys_spread [obj_simps]:
  "fst ` set (spread xs ys) = fst ` set xs \<union> fst ` set ys"
proof (induction ys arbitrary: xs)
  case Nil
  then show ?case by simp
next
  case (Cons p ys)
  then show ?case by (cases p) (simp add: set_keys_assign)
qed

lemma distinct_keys_spread [obj_simps]:
  "distinct (keys xs) \<Longrightarrow> distinct (keys (spread xs ys))"
  by (induction ys arbitrary: xs) (auto simp: distinct_keys_assign)

text \<open>Spreading properties with fresh names is concatenation.\<close>

lemma set_spread_sub: "set (spread xs ys) \<subseteq> set xs \<union> set ys"
proof (induction ys arbitrary: xs)
  case (Cons p ys)
  obtain k v where "p = (k, v)" by (cases p)
  with Cons.IH [of "assign k v xs"] set_assign_sub [of k v xs] show ?case by auto
qed simp

lemma spread_fresh:
  "distinct (keys ys) \<Longrightarrow> set (keys xs) \<inter> set (keys ys) = {} \<Longrightarrow> spread xs ys = xs @ ys"
proof (induction ys arbitrary: xs)
  case Nil
  then show ?case by simp
next
  case (Cons p ys)
  obtain k v where p: "p = (k, v)" by (cases p)
  have fresh: "k \<notin> set (keys xs)" using Cons.prems by (auto simp: p)
  have "assign k v xs = xs @ [(k, v)]"
    using fresh by (induction xs) auto
  moreover have "spread (xs @ [(k, v)]) ys = (xs @ [(k, v)]) @ ys"
    using Cons.prems by (intro Cons.IH) (auto simp: p)
  ultimately show ?case by (simp add: p)
qed

end
