(* ===== verification/JsValue.thy ===== *)
theory JsValue
  imports Prelude
begin

text \<open>
  The JavaScript values the builder stores in its documents, and the few operations of the
  language the sources rely on: truthiness (the conditions \<open>set ? {set} : {}\<close> of
  \<open>src/src/index.ts\<close>), positional arguments (a missing argument is \<open>undefined\<close>, a
  default parameter replaces \<open>undefined\<close>), property reads, the exceptions the builder can
  raise, and \<open>JSON.stringify\<close>, which the command-line tool applies through
  \<open>writeJson\<close>. JavaScript numbers are modelled as \<open>int\<close>: the builder only stores
  them and tests them for truthiness, where the one falsy number that matters is \<open>0\<close>.
\<close>

datatype jsval =
    JUndef
  | JNull
  | JBool bool
  | JNum int
  | JStr string
  | JArr "jsval list"
  | JObj "(string, jsval) obj"

text \<open>Exceptions: calling something that is not a function, reading an unbound name.\<close>

datatype error = TypeError string | ReferenceError nat

subsection \<open>Truthiness, arguments and defaults\<close>

fun truthy :: "jsval \<Rightarrow> bool" where
  "truthy JUndef = False"
| "truthy JNull = False"
| "truthy (JBool b) = b"
| "truthy (JNum n) = (n \<noteq> 0)"
| "truthy (JStr s) = (s \<noteq> [])"
| "truthy (JArr _) = True"
| "truthy (JObj _) = True"

text \<open>The \<open>i\<close>-th actual argument of a call; JavaScript passes \<open>undefined\<close> for a missing one.\<close>

definition arg :: "jsval list \<Rightarrow> nat \<Rightarrow> jsval" where
  "arg xs i = (if i < length xs then xs ! i else JUndef)"

text \<open>A default parameter \<open>p = d\<close> takes \<open>d\<close> when the argument is \<open>undefined\<close>.\<close>

definition default_to :: "jsval \<Rightarrow> jsval \<Rightarrow> jsval" where
  "default_to d v = (if v = JUndef then d else v)"

text \<open>The spread idiom \<open>...(v ? { k: v } : {})\<close>: the property only when \<open>v\<close> is truthy.\<close>

definition opt_prop :: "string \<Rightarrow> jsval \<Rightarrow> (string, jsval) obj" where
  "opt_prop k v = (if truthy v then [(k, v)] else [])"

subsection \<open>Reading properties\<close>

fun props :: "jsval \<Rightarrow> (string, jsval) obj" where
  "props (JObj ps) = ps"
| "props _ = []"

definition has_prop :: "jsval \<Rightarrow> string \<Rightarrow> bool" where
  "has_prop v k = (k \<in> set (keys (props v)))"

definition get :: "jsval \<Rightarrow> string \<Rightarrow> jsval" where
  "get v k = (case map_of (props v) k of None \<Rightarrow> JUndef | Some x \<Rightarrow> x)"

subsection \<open>JSON.stringify\<close>

text \<open>
  The JSON data \<open>JSON.stringify\<close> writes: a property whose value is \<open>undefined\<close> is
  left out of its object, an \<open>undefined\<close> array element becomes \<open>null\<close>, and an
  \<open>undefined\<close> value at the top serialises to nothing (\<open>None\<close>).
\<close>

datatype json_value =
    JSNull
  | JSBool bool
  | JSNum int
  | JSStr string
  | JSArr "json_value list"
  | JSObj "(string, json_value) obj"

fun to_json :: "jsval \<Rightarrow> json_value option"
  and arr_json :: "jsval list \<Rightarrow> json_value list"
  and obj_json :: "(string, jsval) obj \<Rightarrow> (string, json_value) obj" where
  "to_json JUndef = None"
| "to_json JNull = Some JSNull"
| "to_json (JBool b) = Some (JSBool b)"
| "to_json (JNum n) = Some (JSNum n)"
| "to_json (JStr s) = Some (JSStr s)"
| "to_json (JArr xs) = Some (JSArr (arr_json xs))"
| "to_json (JObj ps) = Some (JSObj (obj_json ps))"
| "arr_json [] = []"
| "arr_json (x # xs) = (case to_json x of None \<Rightarrow> JSNull | Some j \<Rightarrow> j) # arr_json xs"
| "obj_json [] = []"
| "obj_json ((k, v) # ps) =
     (case to_json v of None \<Rightarrow> obj_json ps | Some j \<Rightarrow> (k, j) # obj_json ps)"

subsection \<open>Facts shared by the components\<close>

lemma arg_Cons_0 [simp]: "arg (x # xs) 0 = x"
  by (simp add: arg_def)

lemma arg_Cons_Suc [simp]: "arg (x # xs) (Suc i) = arg xs i"
  by (simp add: arg_def)

lemma arg_Nil [simp]: "arg [] i = JUndef"
  by (simp add: arg_def)

lemma arg_numeral [simp]: "arg (x # xs) (numeral n) = arg xs (pred_numeral n)"
  by (simp add: arg_def numeral_eq_Suc)

lemma arg_beyond: "length xs \<le> i \<Longrightarrow> arg xs i = JUndef"
  by (simp add: arg_def)

lemma opt_prop_simps [simp]:
  "truthy v \<Longrightarrow> opt_prop k v = [(k, v)]"
  "\<not> truthy v \<Longrightarrow> opt_prop k v = []"
  by (simp_all add: opt_prop_def)

lemma keys_opt_prop [obj_simps]: "set (keys (opt_prop k v)) = (if truthy v then {k} else {})"
  by (simp add: opt_prop_def)

lemma default_to_simps [simp]:
  "default_to d JUndef = d"
  "v \<noteq> JUndef \<Longrightarrow> default_to d v = v"
  by (simp_all add: default_to_def)

lemma truthy_default_to: "truthy (default_to d v) = (if v = JUndef then truthy d else truthy v)"
  by (simp add: default_to_def)

lemma has_prop_JObj [simp]: "has_prop (JObj ps) k = (k \<in> fst ` set ps)"
  by (simp add: has_prop_def)

lemma get_JObj [simp]: "get (JObj ps) k = (case map_of ps k of None \<Rightarrow> JUndef | Some x \<Rightarrow> x)"
  by (simp add: get_def)

text \<open>Which properties of an object survive serialisation: exactly the defined ones.\<close>

lemma keys_obj_json: "keys (obj_json ps) = map fst (filter (\<lambda>(k, v). v \<noteq> JUndef) ps)"
proof (induction ps)
  case Nil
  then show ?case by simp
next
  case (Cons p ps)
  obtain k v where p: "p = (k, v)" by (cases p)
  show ?case
  proof (cases "v = JUndef")
    case True
    then show ?thesis using Cons.IH by (simp add: p)
  next
    case False
    then obtain j where "to_json v = Some j" by (cases v) auto
    then show ?thesis using Cons.IH False by (simp add: p)
  qed
qed

lemma to_json_None_iff [simp]: "to_json v = None \<longleftrightarrow> v = JUndef"
  by (cases v) simp_all

end
