(* ===== verification/Document.thy ===== *)
theory Document
  imports JsValue
begin

text \<open>
  The document model of \<open>src/src/index.ts\<close> (types \<open>Node\<close> and \<open>Script\<close>, lines 1-17)
  and the methods of the builder handle that act on the script alone: the initial script
  of \<open>flow\<close> (lines 25-30), \<open>meta\<close>, \<open>comment\<close>, \<open>onEvent\<close>, \<open>onException\<close>.
  The script is a record of its properties; \<open>script_added\<close> holds the properties that
  are created after the literal of line 25 (\<open>author\<close>, \<open>_comment\<close>), in the order of
  their first assignment, which is the order \<open>JSON.stringify\<close> writes them in.
  \<open>script_js\<close> is the object the script is at run time.
\<close>

record node =
  node_id :: jsval
  sequence :: "jsval list"

record script =
  script_id :: jsval
  script_flow :: "node list"
  script_hooks :: "jsval list"
  script_exceptionally :: jsval
  script_added :: "(string, jsval) obj"

text \<open>The literal \<open>{ sequence: seq, args }\<close> of type \<open>RunDo\<close>.\<close>

definition run_do :: "jsval \<Rightarrow> jsval \<Rightarrow> jsval" where
  "run_do seq args = JObj [(''sequence'', seq), (''args'', args)]"

definition node_js :: "node \<Rightarrow> jsval" where
  "node_js n = JObj [(''id'', node_id n), (''sequence'', JArr (sequence n))]"

definition script_js :: "script \<Rightarrow> jsval" where
  "script_js s = JObj ([(''id'', script_id s), (''flow'', JArr (map node_js (script_flow s))),
     (''hooks'', JArr (script_hooks s)), (''exceptionally'', script_exceptionally s)]
     @ script_added s)"

definition new_script :: "jsval \<Rightarrow> script" where
  "new_script scriptId = \<lparr>script_id = scriptId, script_flow = [], script_hooks = [],
     script_exceptionally = JUndef, script_added = []\<rparr>"

definition meta :: "jsval \<Rightarrow> script \<Rightarrow> script" where
  "meta author s = s\<lparr>script_added := assign ''author'' author (script_added s)\<rparr>"

definition comment :: "jsval \<Rightarrow> script \<Rightarrow> script" where
  "comment c s = s\<lparr>script_added := assign ''_comment'' c (script_added s)\<rparr>"

definition onEvent :: "jsval \<Rightarrow> jsval \<Rightarrow> jsval \<Rightarrow> script \<Rightarrow> script" where
  "onEvent evt seq args s =
     s\<lparr>script_hooks := script_hooks s @ [JObj [(''event'', evt),
        (''args'', JObj [(''do'', run_do seq args)])]]\<rparr>"

definition onException :: "jsval \<Rightarrow> jsval \<Rightarrow> script \<Rightarrow> script" where
  "onException seq args s =
     s\<lparr>script_exceptionally := JObj [(''action'', JStr ''run''),
        (''args'', JObj [(''do'', run_do seq args)])]\<rparr>"

lemmas script_op_defs = meta_def comment_def onEvent_def onException_def

text \<open>No method of this group touches the identifier or the node list.\<close>

lemma script_ops_frame [simp]:
  "script_id (meta a s) = script_id s" "script_flow (meta a s) = script_flow s"
  "script_id (comment c s) = script_id s" "script_flow (comment c s) = script_flow s"
  "script_id (onEvent e q x s) = script_id s" "script_flow (onEvent e q x s) = script_flow s"
  "script_id (onException q x s) = script_id s" "script_flow (onException q x s) = script_flow s"
  by (simp_all add: script_op_defs)


text \<open>
  C14. \<open>meta\<close> and \<open>comment\<close> overwrite: the last call wins, and the property
  stays where its first assignment put it.
\<close>

theorem meta_comment_last_wins:
  "meta a (meta b s) = meta a s \<and> comment c (comment d s) = comment c s"
  by (simp add: meta_def comment_def assign_idem)

end
