(* ===== verification/Verbs.thy ===== *)
theory Verbs
  imports Document
begin

text \<open>
  The built-in verbs of a node authoring context, \<open>baseActions\<close> of
  \<open>src/src/index.ts\<close> (lines 51-121). Each verb is \<open>(...) => node.sequence.push(r)\<close>;
  the definition named after the verb is the record \<open>r\<close> it pushes, as a function of
  the actual argument list (missing arguments are \<open>undefined\<close>, see \<open>arg\<close>), and
  \<open>push\<close> is \<open>Array.prototype.push\<close>, which returns the new length. \<open>base_verbs\<close>
  is the table in its source order, \<open>base_call\<close> one call of a built-in verb.
\<close>

datatype base_verb =
    Answer | Say | Exit | Run | Expression | Decision | Rest | Json | WaitOnDigits | ForEach
  | Menu | Hangup

definition answer :: "jsval list \<Rightarrow> jsval" where
  "answer xs = JObj [(''id'', arg xs 0), (''action'', JStr ''answer'')]"

definition say :: "jsval list \<Rightarrow> jsval" where
  "say xs = JObj [(''action'', JStr ''say''), (''args'', JObj [(''text'', arg xs 0)])]"

definition exit :: "jsval list \<Rightarrow> jsval" where
  "exit xs = JObj [(''action'', JStr ''exit'')]"

definition run :: "jsval list \<Rightarrow> jsval" where
  "run xs = JObj [(''action'', JStr ''run''),
     (''args'', JObj [(''do'', run_do (arg xs 0) (arg xs 1))])]"

definition expression :: "jsval list \<Rightarrow> jsval" where
  "expression xs = JObj [(''action'', JStr ''expression''),
     (''args'', JObj ((''text'', arg xs 0) # opt_prop ''set'' (arg xs 1)))]"

definition decision :: "jsval list \<Rightarrow> jsval" where
  "decision xs = JObj [(''decision'', JStr ''expression''),
     (''args'', JObj ([(''condition'', arg xs 0), (''do'', run_do (arg xs 1) (arg xs 2))]
        @ (if truthy (arg xs 3) then [(''else'', run_do (arg xs 3) (arg xs 4))] else [])))]"

definition rest :: "jsval list \<Rightarrow> jsval" where
  "rest xs = JObj [(''action'', JStr ''rest''),
     (''args'', JObj ([(''method'', arg xs 0), (''url'', arg xs 1)] @ opt_prop ''body'' (arg xs 2)
        @ opt_prop ''headers'' (arg xs 3) @ opt_prop ''set'' (arg xs 4)))]"

definition json :: "jsval list \<Rightarrow> jsval" where
  "json xs = JObj [(''action'', JStr ''json''),
     (''args'', JObj ((''text'', arg xs 0) # opt_prop ''set'' (arg xs 1) @ opt_prop ''spec'' (arg xs 2)))]"

definition waitOnDigits :: "jsval list \<Rightarrow> jsval" where
  "waitOnDigits xs = JObj [(''action'', JStr ''waitOnDigits''),
     (''args'', JObj [(''length'', arg xs 0), (''timeout'', arg xs 1), (''set'', arg xs 2),
        (''async'', default_to (JBool False) (arg xs 3))])]"

definition forEach :: "jsval list \<Rightarrow> jsval" where
  "forEach xs = JObj [(''action'', JStr ''forEach''),
     (''args'', JObj ([(''iterateOver'', arg xs 0), (''setElement'', arg xs 1),
        (''do'', JObj [(''sequence'', arg xs 2)])]
        @ opt_prop ''isParallel'' (default_to (JBool False) (arg xs 3))
        @ opt_prop ''set'' (arg xs 4)))]"

definition menu :: "jsval list \<Rightarrow> jsval" where
  "menu xs = JObj [(''action'', JStr ''menu''),
     (''args'', JObj [(''text'', arg xs 0), (''options'', arg xs 1), (''else'', arg xs 2)])]"

definition hangup :: "jsval list \<Rightarrow> jsval" where
  "hangup xs = JObj [(''action'', JStr ''hangup''), (''args'', JObj [(''reference'', arg xs 0)])]"

lemmas verb_defs = answer_def say_def exit_def run_def expression_def decision_def rest_def
  json_def waitOnDigits_def forEach_def menu_def hangup_def

fun base_action :: "base_verb \<Rightarrow> jsval list \<Rightarrow> jsval" where
  "base_action Answer = answer"
| "base_action Say = say"
| "base_action Exit = exit"
| "base_action Run = run"
| "base_action Expression = expression"
| "base_action Decision = decision"
| "base_action Rest = rest"
| "base_action Json = json"
| "base_action WaitOnDigits = waitOnDigits"
| "base_action ForEach = forEach"
| "base_action Menu = menu"
| "base_action Hangup = hangup"

definition base_verbs :: "(string, base_verb) obj" where
  "base_verbs = [(''answer'', Answer), (''say'', Say), (''exit'', Exit), (''run'', Run),
     (''expression'', Expression), (''decision'', Decision), (''rest'', Rest), (''json'', Json),
     (''waitOnDigits'', WaitOnDigits), (''forEach'', ForEach), (''menu'', Menu),
     (''hangup'', Hangup)]"

definition push :: "jsval \<Rightarrow> node \<Rightarrow> node \<times> jsval" where
  "push r n = (n\<lparr>sequence := sequence n @ [r]\<rparr>, JNum (int (Suc (length (sequence n)))))"

definition base_call :: "base_verb \<Rightarrow> jsval list \<Rightarrow> node \<Rightarrow> node \<times> jsval" where
  "base_call b xs n = push (base_action b xs) n"

text \<open>An action record is an object tagged \<open>action\<close> or \<open>decision\<close>.\<close>

definition action_shaped :: "jsval \<Rightarrow> bool" where
  "action_shaped r \<longleftrightarrow> has_prop r ''action'' \<or> has_prop r ''decision''"

subsection \<open>Shared facts\<close>

lemma distinct_base_verbs: "distinct (keys base_verbs)"
  by (simp add: base_verbs_def)

lemma base_call_node [simp]:
  "fst (base_call b xs n) = n\<lparr>sequence := sequence n @ [base_action b xs]\<rparr>"
  by (simp add: base_call_def push_def)

lemma base_call_id [simp]: "node_id (fst (base_call b xs n)) = node_id n"
  by simp


lemma truthy_default_false [simp]: "truthy (default_to (JBool False) v) = truthy v"
  by (cases v) (simp_all add: default_to_def)

subsection \<open>The records the verbs push\<close>

text \<open>
  C5. \<open>expression(text, set)\<close> pushes \<open>{action: "expression", args: {text, set}}\<close>
  where the \<open>set\<close> property is present exactly when the \<open>set\<close> argument is
  truthy, and then holds it.
\<close>

theorem expression_set:
  "has_prop (get (expression xs) ''args'') ''set'' = truthy (arg xs 1)
   \<and> get (get (expression xs) ''args'') ''set'' = (if truthy (arg xs 1) then arg xs 1 else JUndef)
   \<and> get (get (expression xs) ''args'') ''text'' = arg xs 0
   \<and> get (expression xs) ''action'' = JStr ''expression''"
  by (simp add: expression_def opt_prop_def)

text \<open>
  C6. \<open>decision(condition, doSeq, doArgs, elseSeq, elseArgs)\<close> pushes a record tagged
  \<open>decision: "expression"\<close> whose \<open>do\<close> is \<open>{sequence: doSeq, args: doArgs}\<close>,
  and whose \<open>else\<close> property is present exactly when \<open>elseSeq\<close> is truthy, and
  then is \<open>{sequence: elseSeq, args: elseArgs}\<close>.
\<close>

theorem decision_else:
  "has_prop (get (decision xs) ''args'') ''else'' = truthy (arg xs 3)
   \<and> get (get (decision xs) ''args'') ''else'' =
       (if truthy (arg xs 3) then run_do (arg xs 3) (arg xs 4) else JUndef)
   \<and> get (get (decision xs) ''args'') ''do'' = run_do (arg xs 1) (arg xs 2)
   \<and> get (decision xs) ''decision'' = JStr ''expression''"
  by (simp add: decision_def)

text \<open>
  C9. \<open>waitOnDigits(length, timeout, set, isAsync)\<close> always writes the \<open>async\<close>
  property: the \<open>isAsync\<close> argument, or \<open>false\<close> when it is omitted.
\<close>

theorem waitOnDigits_async:
  "has_prop (get (waitOnDigits xs) ''args'') ''async''
   \<and> get (get (waitOnDigits xs) ''args'') ''async'' =
       (if arg xs 3 = JUndef then JBool False else arg xs 3)
   \<and> keys (props (get (waitOnDigits xs) ''args'')) = [''length'', ''timeout'', ''set'', ''async'']"
  by (simp add: waitOnDigits_def default_to_def)

text \<open>
  C10. \<open>forEach(iterateOver, setElement, doSeq, isParallel, setResult)\<close> writes
  \<open>isParallel\<close> only when that argument is truthy, with the value it was given, and
  \<open>set\<close> only when \<open>setResult\<close> is truthy; \<open>do\<close> holds only the sequence.
\<close>

theorem forEach_optional:
  "has_prop (get (forEach xs) ''args'') ''isParallel'' = truthy (arg xs 3)
   \<and> get (get (forEach xs) ''args'') ''isParallel'' = (if truthy (arg xs 3) then arg xs 3 else JUndef)
   \<and> has_prop (get (forEach xs) ''args'') ''set'' = truthy (arg xs 4)
   \<and> get (get (forEach xs) ''args'') ''set'' = (if truthy (arg xs 4) then arg xs 4 else JUndef)
   \<and> get (get (forEach xs) ''args'') ''do'' = JObj [(''sequence'', arg xs 2)]"
  by (auto simp: forEach_def opt_prop_def default_to_def)

text \<open>
  C11. \<open>rest(method, url, body, headers, set)\<close> writes \<open>method\<close> and \<open>url\<close>
  always and each of \<open>body\<close>, \<open>headers\<close>, \<open>set\<close> exactly when that argument is
  truthy.
\<close>

theorem rest_optional:
  "keys (props (get (rest xs) ''args'')) =
     [''method'', ''url''] @ (if truthy (arg xs 2) then [''body''] else [])
     @ (if truthy (arg xs 3) then [''headers''] else []) @ (if truthy (arg xs 4) then [''set''] else [])"
  by (simp add: rest_def opt_prop_def)

text \<open>
  C12. \<open>json(text, set, spec)\<close> writes \<open>text\<close> always and each of \<open>set\<close> and
  \<open>spec\<close> exactly when that argument is truthy.
\<close>

theorem json_optional:
  "keys (props (get (json xs) ''args'')) =
     [''text''] @ (if truthy (arg xs 1) then [''set''] else []) @ (if truthy (arg xs 2) then [''spec''] else [])"
  by (simp add: json_def opt_prop_def)

text \<open>
  C16. \<open>run(seq, args)\<close> always creates the \<open>args\<close> property of its \<open>do\<close> object,
  also when \<open>args\<close> is omitted (it then holds \<open>undefined\<close>); \<open>JSON.stringify\<close>
  writes that property exactly when \<open>args\<close> was given.
\<close>

theorem run_args_serialised:
  "has_prop (get (get (run xs) ''args'') ''do'') ''args''
   \<and> (''args'' \<in> set (keys (obj_json (props (get (get (run xs) ''args'') ''do''))))
       \<longleftrightarrow> arg xs 1 \<noteq> JUndef)"
  by (simp add: run_def run_do_def keys_obj_json del: obj_json.simps)

end
