(* ===== verification/Context.thy ===== *)
theory Context
  imports Verbs
begin

text \<open>
  The node authoring context of \<open>src/src/index.ts\<close> (lines 49 and 123-133) and the
  extension hook. An extension factory \<open>extendActions(node, ctx)\<close> is called once per
  node with the fresh node and the empty context object; it may store data in the
  context (the per-node state, \<open>bag\<close>) and returns an object of extra verbs. An
  extension verb is a function of the actual arguments, the node and the state that
  either throws (\<open>Inl\<close>, the exception then leaves the wrapper and the run) or returns
  the new node, the new state and a result that the wrapper throws away; an entry of the
  returned object that is not a function (\<open>EData\<close>) is wrapped all the same and raises
  \<open>TypeError\<close> when called. \<open>combined_actions\<close> is \<open>{...baseActions, ...ext}\<close>,
  \<open>make_ctx\<close> installs one wrapper per entry of it, and \<open>ctx_call\<close> is a call of one
  wrapper: it runs the entry and returns the context (\<open>RCtx i\<close>), never the entry's
  own result.
\<close>

type_synonym bag = "(string, jsval) obj"

datatype ext_entry =
    EFun "jsval list \<Rightarrow> node \<Rightarrow> bag \<Rightarrow> error + node \<times> bag \<times> jsval"
  | EData jsval

datatype verb = Base base_verb | Ext ext_entry

type_synonym factory = "node \<Rightarrow> bag \<times> (string, ext_entry) obj"

record ctx =
  ctx_verbs :: "(string, verb) obj"
  ctx_bag :: bag

text \<open>What a method call returns: the builder handle, the context of the \<open>i\<close>-th node,
  the script (from \<open>build\<close>) or another value.\<close>

datatype rv = RApi | RCtx nat | RScript | RVal jsval

definition base_table :: "(string, verb) obj" where
  "base_table = map (\<lambda>(k, b). (k, Base b)) base_verbs"

definition combined_actions :: "factory option \<Rightarrow> node \<Rightarrow> bag \<times> (string, verb) obj" where
  "combined_actions ext n =
     (case ext of
        None \<Rightarrow> ([], spread base_table [])
      | Some f \<Rightarrow> (let (bg, t) = f n in (bg, spread base_table (map (\<lambda>(k, e). (k, Ext e)) t))))"

definition make_ctx :: "factory option \<Rightarrow> node \<Rightarrow> ctx" where
  "make_ctx ext n =
     (let (bg, t) = combined_actions ext n
      in \<lparr>ctx_verbs = t, ctx_bag = filter (\<lambda>(k, _). k \<notin> set (keys t)) bg\<rparr>)"

fun invoke :: "verb \<Rightarrow> jsval list \<Rightarrow> node \<Rightarrow> bag \<Rightarrow> error + (node \<times> bag \<times> jsval)" where
  "invoke (Base b) xs n bg = (let (n', r) = base_call b xs n in Inr (n', bg, r))"
| "invoke (Ext (EFun f)) xs n bg = f xs n bg"
| "invoke (Ext (EData v)) xs n bg = Inl (TypeError ''fnAction'')"

definition base_ctx :: ctx where
  "base_ctx = \<lparr>ctx_verbs = base_table, ctx_bag = []\<rparr>"

definition ctx_call :: "nat \<Rightarrow> ctx \<Rightarrow> string \<Rightarrow> jsval list \<Rightarrow> node \<Rightarrow> error + (node \<times> ctx \<times> rv)" where
  "ctx_call i c m xs n =
     (case map_of (ctx_verbs c) m of
        None \<Rightarrow> Inl (TypeError m)
      | Some v \<Rightarrow> (case invoke v xs n (ctx_bag c) of
           Inl e \<Rightarrow> Inl e
         | Inr (n', bg', _) \<Rightarrow> Inr (n', c\<lparr>ctx_bag := bg'\<rparr>, RCtx i)))"


subsection \<open>Shared facts\<close>

lemma map_of_base_table: "map_of base_table m = map_option Base (map_of base_verbs m)"
  by (simp add: base_table_def map_of_map)

lemma make_ctx_None [simp]: "make_ctx None n = base_ctx"
  by (simp add: make_ctx_def combined_actions_def base_ctx_def)

lemma invoke_Base [simp]:
  "invoke (Base b) xs n bg =
     Inr (n\<lparr>sequence := sequence n @ [base_action b xs]\<rparr>, bg, JNum (int (Suc (length (sequence n)))))"
  by (simp add: base_call_def push_def)

declare invoke.simps(1) [simp del]

lemma ctx_call_Inr:
  "ctx_call i c m xs n = Inr (n', c', r) \<Longrightarrow> r = RCtx i \<and> ctx_verbs c' = ctx_verbs c"
  by (auto simp: ctx_call_def split: option.splits sum.splits prod.splits)


subsection \<open>The merged verb table\<close>

text \<open>
  C4. Extension verbs override built-ins of the same name, for the node the factory was
  called for: a name resolves to the extension's entry when the factory returned one
  (the last one, as in an object literal), and to the built-in verb otherwise.
\<close>

theorem make_ctx_override:
  "map_of (ctx_verbs (make_ctx (Some f) n)) m =
     (case map_of (rev (snd (f n))) m of
        Some e \<Rightarrow> Some (Ext e)
      | None \<Rightarrow> map_option Base (map_of base_verbs m))"
proof -
  obtain bg t where ft: "f n = (bg, t)" by fastforce
  have ext: "map_of (rev (map (\<lambda>(k, e). (k, Ext e)) t)) = map_option Ext \<circ> map_of (rev t)"
    by (simp add: rev_map map_of_map)
  show ?thesis
    by (simp add: make_ctx_def combined_actions_def ft map_of_spread ext map_of_base_table
        map_add_def split: option.split)
qed

text \<open>The built-in names keep their places at the front of the merged table.\<close>

lemma make_ctx_base_prefix: "prefix (keys base_table) (keys (ctx_verbs (make_ctx ext n)))"
  by (auto simp: make_ctx_def combined_actions_def keys_spread_prefix split: option.split prod.split)

end
