(* ===== verification/Builder.thy ===== *)
theory Builder
  imports Context
begin

text \<open>
  The flow builder of \<open>src/src/index.ts\<close>: \<open>flow(scriptId, extendActions)\<close> and the
  methods of the handle it returns (lines 24-150), together with the authoring programs
  that call them. The run-time objects are kept in an explicit store, \<open>bstate\<close>: the
  script, whose \<open>i\<close>-th node is the object the \<open>i\<close>-th context mutates, and the list
  of contexts, one per node, in creation order. A context refers to its node by position;
  nodes are never removed, so the reference stays valid while later nodes are created,
  also by a callback that runs while the context's own callback is still running.

  A program is a list of statements. \<open>ApiChain cs\<close> is an expression
  \<open>f.c1(..).c2(..)...\<close> on the builder handle; \<open>CtxChain k cs\<close> is a chain of verb
  calls on the context parameter of the \<open>k\<close>-th enclosing callback (\<open>0\<close> the
  innermost, so a closure may reach the context of an outer node); \<open>ANode name body\<close>
  is \<open>node(name, it => { body })\<close>. Each call is dispatched on the value the previous
  call returned, as JavaScript does: a method that is not there raises \<open>TypeError\<close>.
\<close>

record bstate =
  doc :: script
  ctxs :: "ctx list"

datatype stmt = CtxChain nat "(string \<times> jsval list) list" | ApiChain "api_call list"
and api_call = ACall string "jsval list" | ANode jsval "stmt list"

fun call_name :: "api_call \<Rightarrow> string" where
  "call_name (ACall m _) = m"
| "call_name (ANode _ _) = ''node''"

definition flow :: "jsval \<Rightarrow> bstate" where
  "flow scriptId = \<lparr>doc = new_script scriptId, ctxs = []\<rparr>"

definition node_open :: "factory option \<Rightarrow> jsval \<Rightarrow> bstate \<Rightarrow> nat \<times> bstate" where
  "node_open ext name st =
     (let n = \<lparr>node_id = name, sequence = []\<rparr>; i = length (script_flow (doc st))
      in (i, st\<lparr>doc := (doc st)\<lparr>script_flow := script_flow (doc st) @ [n]\<rparr>,
                ctxs := ctxs st @ [make_ctx ext n]\<rparr>))"

definition ctx_step :: "nat \<Rightarrow> string \<Rightarrow> jsval list \<Rightarrow> bstate \<Rightarrow> error + (rv \<times> bstate)" where
  "ctx_step i m xs st =
     (case ctx_call i (ctxs st ! i) m xs (script_flow (doc st) ! i) of
        Inl e \<Rightarrow> Inl e
      | Inr (n', c', r) \<Rightarrow>
          Inr (r, st\<lparr>doc := (doc st)\<lparr>script_flow := (script_flow (doc st))[i := n']\<rparr>,
                     ctxs := (ctxs st)[i := c']\<rparr>))"

fun ctx_chain :: "rv \<Rightarrow> (string \<times> jsval list) list \<Rightarrow> bstate \<Rightarrow> error + (rv \<times> bstate)" where
  "ctx_chain r [] st = Inr (r, st)"
| "ctx_chain (RCtx i) ((m, xs) # cs) st =
     (case ctx_step i m xs st of Inl e \<Rightarrow> Inl e | Inr (r, st') \<Rightarrow> ctx_chain r cs st')"
| "ctx_chain _ ((m, xs) # cs) st = Inl (TypeError m)"

definition api_method :: "string \<Rightarrow> jsval list \<Rightarrow> bstate \<Rightarrow> error + (rv \<times> bstate)" where
  "api_method m xs st =
     (if m = ''build'' then Inr (RScript, st)
      else if m = ''meta'' then Inr (RApi, st\<lparr>doc := meta (arg xs 0) (doc st)\<rparr>)
      else if m = ''comment'' then Inr (RApi, st\<lparr>doc := comment (arg xs 0) (doc st)\<rparr>)
      else if m = ''node'' then Inl (TypeError ''fn'')
      else if m = ''onEvent'' then
        Inr (RApi, st\<lparr>doc := onEvent (arg xs 0) (arg xs 1) (arg xs 2) (doc st)\<rparr>)
      else if m = ''onException'' then
        Inr (RApi, st\<lparr>doc := onException (arg xs 0) (arg xs 1) (doc st)\<rparr>)
      else Inl (TypeError m))"

fun exec_stmts :: "factory option \<Rightarrow> nat list \<Rightarrow> stmt list \<Rightarrow> bstate \<Rightarrow> error + bstate"
  and exec_stmt :: "factory option \<Rightarrow> nat list \<Rightarrow> stmt \<Rightarrow> bstate \<Rightarrow> error + bstate"
  and exec_api :: "factory option \<Rightarrow> nat list \<Rightarrow> rv \<Rightarrow> api_call list \<Rightarrow> bstate \<Rightarrow>
                   error + (rv \<times> bstate)"
  and api_step :: "factory option \<Rightarrow> nat list \<Rightarrow> rv \<Rightarrow> api_call \<Rightarrow> bstate \<Rightarrow>
                   error + (rv \<times> bstate)" where
  "exec_stmts ext env [] st = Inr st"
| "exec_stmts ext env (s # ss) st =
     (case exec_stmt ext env s st of Inl e \<Rightarrow> Inl e | Inr st' \<Rightarrow> exec_stmts ext env ss st')"
| "exec_stmt ext env (CtxChain k cs) st =
     (if k < length env
      then (case ctx_chain (RCtx (env ! k)) cs st of Inl e \<Rightarrow> Inl e | Inr (_, st') \<Rightarrow> Inr st')
      else Inl (ReferenceError k))"
| "exec_stmt ext env (ApiChain cs) st =
     (case exec_api ext env RApi cs st of Inl e \<Rightarrow> Inl e | Inr (_, st') \<Rightarrow> Inr st')"
| "exec_api ext env r [] st = Inr (r, st)"
| "exec_api ext env r (c # cs) st =
     (case api_step ext env r c st of Inl e \<Rightarrow> Inl e | Inr (r', st') \<Rightarrow> exec_api ext env r' cs st')"
| "api_step ext env RApi (ACall m xs) st = api_method m xs st"
| "api_step ext env RApi (ANode name body) st =
     (let (i, st') = node_open ext name st
      in (case exec_stmts ext (i # env) body st' of Inl e \<Rightarrow> Inl e | Inr st'' \<Rightarrow> Inr (RApi, st'')))"
| "api_step ext env (RCtx j) c st = Inl (TypeError (call_name c))"
| "api_step ext env RScript c st = Inl (TypeError (call_name c))"
| "api_step ext env (RVal v) c st = Inl (TypeError (call_name c))"

text \<open>\<open>flow(scriptId, ext).c1(..)...\<close>: a chain on a fresh handle.\<close>

definition run_flow :: "jsval \<Rightarrow> factory option \<Rightarrow> api_call list \<Rightarrow> error + (rv \<times> bstate)" where
  "run_flow scriptId ext cs = exec_api ext [] RApi cs (flow scriptId)"


text \<open>The store is consistent when there is one context per node.\<close>

definition store_ok :: "bstate \<Rightarrow> bool" where
  "store_ok st \<longleftrightarrow> length (ctxs st) = length (script_flow (doc st))"

text \<open>What every successful run keeps: the identifier, and the hooks already registered.\<close>

definition grows :: "bstate \<Rightarrow> bstate \<Rightarrow> bool" where
  "grows st st' \<longleftrightarrow> script_id (doc st') = script_id (doc st)
     \<and> prefix (script_hooks (doc st)) (script_hooks (doc st'))"

text \<open>The number of \<open>node(name, callback)\<close> calls a program makes, nested ones included.\<close>

fun count_stmts :: "stmt list \<Rightarrow> nat"
  and count_stmt :: "stmt \<Rightarrow> nat"
  and count_calls :: "api_call list \<Rightarrow> nat"
  and count_call :: "api_call \<Rightarrow> nat" where
  "count_stmts [] = 0"
| "count_stmts (s # ss) = count_stmt s + count_stmts ss"
| "count_stmt (CtxChain _ _) = 0"
| "count_stmt (ApiChain cs) = count_calls cs"
| "count_calls [] = 0"
| "count_calls (c # cs) = count_call c + count_calls cs"
| "count_call (ACall _ _) = 0"
| "count_call (ANode _ body) = Suc (count_stmts body)"

text \<open>A program whose handle calls satisfy \<open>A\<close> and whose \<open>node\<close> names satisfy
  \<open>N\<close>, nested programs included.\<close>

fun stmts_ok :: "(string \<Rightarrow> jsval list \<Rightarrow> bool) \<Rightarrow> (jsval \<Rightarrow> bool) \<Rightarrow> stmt list \<Rightarrow> bool"
  and stmt_ok :: "(string \<Rightarrow> jsval list \<Rightarrow> bool) \<Rightarrow> (jsval \<Rightarrow> bool) \<Rightarrow> stmt \<Rightarrow> bool"
  and calls_ok :: "(string \<Rightarrow> jsval list \<Rightarrow> bool) \<Rightarrow> (jsval \<Rightarrow> bool) \<Rightarrow> api_call list \<Rightarrow> bool"
  and call_ok :: "(string \<Rightarrow> jsval list \<Rightarrow> bool) \<Rightarrow> (jsval \<Rightarrow> bool) \<Rightarrow> api_call \<Rightarrow> bool" where
  "stmts_ok A N [] = True"
| "stmts_ok A N (s # ss) = (stmt_ok A N s \<and> stmts_ok A N ss)"
| "stmt_ok A N (CtxChain _ _) = True"
| "stmt_ok A N (ApiChain cs) = calls_ok A N cs"
| "calls_ok A N [] = True"
| "calls_ok A N (c # cs) = (call_ok A N c \<and> calls_ok A N cs)"
| "call_ok A N (ACall m xs) = A m xs"
| "call_ok A N (ANode name body) = (N name \<and> stmts_ok A N body)"

subsection \<open>One step at a time\<close>

lemmas exec_induct = exec_stmts_exec_stmt_exec_api_api_step.induct

lemma grows_refl [simp]: "grows st st"
  by (simp add: grows_def)

lemma grows_trans: "grows st1 st2 \<Longrightarrow> grows st2 st3 \<Longrightarrow> grows st1 st3"
  by (auto simp: grows_def intro: prefix_order.trans)

lemma ctx_step_frame:
  assumes "ctx_step i m xs st = Inr (r, st')"
  shows "grows st st' \<and> length (script_flow (doc st')) = length (script_flow (doc st))
    \<and> length (ctxs st') = length (ctxs st) \<and> script_hooks (doc st') = script_hooks (doc st)"
  using assms
  by (auto simp: ctx_step_def grows_def Let_def split: sum.splits prod.splits)

lemma ctx_chain_frame:
  "ctx_chain r cs st = Inr (r', st') \<Longrightarrow> store_ok st \<Longrightarrow>
   grows st st' \<and> store_ok st' \<and> length (script_flow (doc st')) = length (script_flow (doc st))"
proof (induction r cs st rule: ctx_chain.induct)
  case (2 i m xs cs st)
  then obtain r1 st1 where s1: "ctx_step i m xs st = Inr (r1, st1)"
    and rest: "ctx_chain r1 cs st1 = Inr (r', st')"
    by (auto split: sum.splits)
  from ctx_step_frame [OF s1] "2.prems"(2) have "grows st st1" and "store_ok st1"
    and "length (script_flow (doc st1)) = length (script_flow (doc st))"
    by (simp_all add: store_ok_def)
  with "2.IH" [OF s1 refl rest] show ?case by (auto intro: grows_trans)
qed auto

lemma api_method_frame:
  assumes "api_method m xs st = Inr (r, st')"
  shows "grows st st' \<and> script_flow (doc st') = script_flow (doc st) \<and> ctxs st' = ctxs st"
  using assms
  by (auto simp: api_method_def grows_def script_op_defs split: if_splits)

lemma node_open_frame:
  assumes "node_open ext name st = (i, st')"
  shows "grows st st' \<and> script_flow (doc st') = script_flow (doc st) @ [\<lparr>node_id = name, sequence = []\<rparr>]
    \<and> ctxs st' = ctxs st @ [make_ctx ext \<lparr>node_id = name, sequence = []\<rparr>]
    \<and> i = length (script_flow (doc st))"
  using assms by (auto simp: node_open_def grows_def Let_def)

lemma exec_api_append:
  "exec_api ext env r (cs @ ds) st =
     (case exec_api ext env r cs st of Inl e \<Rightarrow> Inl e | Inr (r', st') \<Rightarrow> exec_api ext env r' ds st')"
  by (induction cs arbitrary: r st) (simp_all split: sum.split)

subsection \<open>Whole runs\<close>

text \<open>
  The frame of a run: the identifier and the registered hooks are kept, the store stays
  consistent, and exactly one node is added per \<open>node\<close> call of the program.
\<close>

lemma exec_frame:
  "exec_stmts ext env ss st = Inr st' \<Longrightarrow> store_ok st \<Longrightarrow> grows st st' \<and> store_ok st'
     \<and> length (script_flow (doc st')) = length (script_flow (doc st)) + count_stmts ss"
  "exec_stmt ext env s st = Inr st' \<Longrightarrow> store_ok st \<Longrightarrow> grows st st' \<and> store_ok st'
     \<and> length (script_flow (doc st')) = length (script_flow (doc st)) + count_stmt s"
  "exec_api ext env r cs st = Inr (r', st') \<Longrightarrow> store_ok st \<Longrightarrow> grows st st' \<and> store_ok st'
     \<and> length (script_flow (doc st')) = length (script_flow (doc st)) + count_calls cs"
  "api_step ext env r c st = Inr (r', st') \<Longrightarrow> store_ok st \<Longrightarrow> grows st st' \<and> store_ok st'
     \<and> length (script_flow (doc st')) = length (script_flow (doc st)) + count_call c"
proof (induction ext env ss st and ext env s st and ext env r cs st and ext env r c st
    arbitrary: st' and st' and r' st' and r' st' rule: exec_induct)
  case (2 ext env s ss st)
  then obtain st1 where "exec_stmt ext env s st = Inr st1" "exec_stmts ext env ss st1 = Inr st'"
    by (auto split: sum.splits)
  with 2 show ?case by (fastforce intro: grows_trans)
next
  case (3 ext env k cs st)
  then obtain r1 where "ctx_chain (RCtx (env ! k)) cs st = Inr (r1, st')"
    by (auto split: sum.splits if_splits)
  with ctx_chain_frame "3.prems"(2) show ?case by fastforce
next
  case (4 ext env cs st)
  then obtain r1 where "exec_api ext env RApi cs st = Inr (r1, st')"
    by (auto split: sum.splits)
  with 4 show ?case by fastforce
next
  case (6 ext env r c cs st)
  then obtain r1 st1 where "api_step ext env r c st = Inr (r1, st1)"
    "exec_api ext env r1 cs st1 = Inr (r', st')"
    by (auto split: sum.splits)
  with 6 show ?case by (fastforce intro: grows_trans)
next
  case (7 ext env m xs st)
  with api_method_frame [of m xs st r' st'] show ?case by (simp add: store_ok_def)
next
  case (8 ext env name body st)
  obtain i st1 where o: "node_open ext name st = (i, st1)" by fastforce
  with "8.prems"(1) have b: "exec_stmts ext (i # env) body st1 = Inr st'"
    by (auto split: sum.splits)
  from node_open_frame [OF o] "8.prems"(2) have "grows st st1" "store_ok st1"
    "length (script_flow (doc st1)) = Suc (length (script_flow (doc st)))"
    by (simp_all add: store_ok_def)
  with "8.IH" [OF o[symmetric] refl b] show ?case by (auto intro: grows_trans)
qed auto

text \<open>
  Any property of the store that every primitive step keeps (a verb call on a context,
  a method of the handle other than \<open>node\<close>, the creation of a node) holds after
  every successful run.
\<close>

text \<open>An invariant of every step a program takes, where the handle's steps need only
  preserve it for the calls the program makes.\<close>

lemma exec_preserves_calls:
  assumes step: "\<And>i m xs st r st'. ctx_step i m xs st = Inr (r, st') \<Longrightarrow> P st \<Longrightarrow> P st'"
    and meth: "\<And>m xs st r st'. A m xs \<Longrightarrow> api_method m xs st = Inr (r, st') \<Longrightarrow> P st \<Longrightarrow> P st'"
    and opn: "\<And>name st i st'. N name \<Longrightarrow> node_open ext name st = (i, st') \<Longrightarrow> P st \<Longrightarrow> P st'"
  shows "exec_stmts ext env ss st = Inr st' \<Longrightarrow> stmts_ok A N ss \<Longrightarrow> P st \<Longrightarrow> P st'"
    and "exec_stmt ext env s st = Inr st' \<Longrightarrow> stmt_ok A N s \<Longrightarrow> P st \<Longrightarrow> P st'"
    and "exec_api ext env r cs st = Inr (r', st') \<Longrightarrow> calls_ok A N cs \<Longrightarrow> P st \<Longrightarrow> P st'"
    and "api_step ext env r c st = Inr (r', st') \<Longrightarrow> call_ok A N c \<Longrightarrow> P st \<Longrightarrow> P st'"
proof -
  have chain: "ctx_chain r cs st = Inr (r', st') \<Longrightarrow> P st \<Longrightarrow> P st'" for r cs st r' st'
  proof (induction r cs st rule: ctx_chain.induct)
    case (2 i m xs cs st)
    then obtain r1 st1 where s1: "ctx_step i m xs st = Inr (r1, st1)"
      and rest: "ctx_chain r1 cs st1 = Inr (r', st')"
      by (auto split: sum.splits)
    from s1 "2.prems"(2) have "P st1" by (rule step)
    with "2.IH" [OF s1 refl rest] show ?case .
  qed auto
  have "exec_stmts e env ss st = Inr st' \<Longrightarrow> e = ext \<Longrightarrow> stmts_ok A N ss \<Longrightarrow> P st \<Longrightarrow> P st'"
    and "exec_stmt e env s st = Inr st' \<Longrightarrow> e = ext \<Longrightarrow> stmt_ok A N s \<Longrightarrow> P st \<Longrightarrow> P st'"
    and "exec_api e env r cs st = Inr (r', st') \<Longrightarrow> e = ext \<Longrightarrow> calls_ok A N cs \<Longrightarrow> P st \<Longrightarrow> P st'"
    and "api_step e env r c st = Inr (r', st') \<Longrightarrow> e = ext \<Longrightarrow> call_ok A N c \<Longrightarrow> P st \<Longrightarrow> P st'" for e
  proof (induction e env ss st and e env s st and e env r cs st and e env r c st
      arbitrary: st' and st' and r' st' and r' st' rule: exec_induct)
    case (8 e env name body st)
    obtain i st1 where o: "node_open e name st = (i, st1)"
      by (cases "node_open e name st") auto
    from "8.prems"(1) o obtain st2 where b: "exec_stmts e (i # env) body st1 = Inr st2"
      and "st' = st2"
      by (auto split: sum.splits)
    from "8.prems"(3) have "N name" and "stmts_ok A N body" by simp_all
    from opn [OF \<open>N name\<close> o [unfolded \<open>e = ext\<close>] \<open>P st\<close>] have "P st1" .
    with "8.IH" [OF o [symmetric] refl b \<open>e = ext\<close> \<open>stmts_ok A N body\<close>] \<open>st' = st2\<close>
    show ?case by simp
  qed (auto split: sum.splits if_splits prod.splits intro: chain meth)
  then show "exec_stmts ext env ss st = Inr st' \<Longrightarrow> stmts_ok A N ss \<Longrightarrow> P st \<Longrightarrow> P st'"
    and "exec_stmt ext env s st = Inr st' \<Longrightarrow> stmt_ok A N s \<Longrightarrow> P st \<Longrightarrow> P st'"
    and "exec_api ext env r cs st = Inr (r', st') \<Longrightarrow> calls_ok A N cs \<Longrightarrow> P st \<Longrightarrow> P st'"
    and "api_step ext env r c st = Inr (r', st') \<Longrightarrow> call_ok A N c \<Longrightarrow> P st \<Longrightarrow> P st'"
    by blast+
qed

lemma prog_ok_all:
  "(\<forall>m xs. A m xs) \<longrightarrow> (\<forall>n. N n) \<longrightarrow> stmts_ok A N ss"
  "(\<forall>m xs. A m xs) \<longrightarrow> (\<forall>n. N n) \<longrightarrow> stmt_ok A N s"
  "(\<forall>m xs. A m xs) \<longrightarrow> (\<forall>n. N n) \<longrightarrow> calls_ok A N cs"
  "(\<forall>m xs. A m xs) \<longrightarrow> (\<forall>n. N n) \<longrightarrow> call_ok A N c"
  by (induction A N ss and A N s and A N cs and A N c rule: stmts_ok_stmt_ok_calls_ok_call_ok.induct)
    simp_all

lemma exec_preserves:
  assumes step: "\<And>i m xs st r st'. ctx_step i m xs st = Inr (r, st') \<Longrightarrow> P st \<Longrightarrow> P st'"
    and meth: "\<And>m xs st r st'. api_method m xs st = Inr (r, st') \<Longrightarrow> P st \<Longrightarrow> P st'"
    and opn: "\<And>name st i st'. node_open ext name st = (i, st') \<Longrightarrow> P st \<Longrightarrow> P st'"
  shows "exec_stmts ext env ss st = Inr st' \<Longrightarrow> P st \<Longrightarrow> P st'"
    and "exec_stmt ext env s st = Inr st' \<Longrightarrow> P st \<Longrightarrow> P st'"
    and "exec_api ext env r cs st = Inr (r', st') \<Longrightarrow> P st \<Longrightarrow> P st'"
    and "api_step ext env r c st = Inr (r', st') \<Longrightarrow> P st \<Longrightarrow> P st'"
proof -
  note all = prog_ok_all [where A = "\<lambda>_ _. True" and N = "\<lambda>_. True", simplified]
  show "exec_stmts ext env ss st = Inr st' \<Longrightarrow> P st \<Longrightarrow> P st'"
    by (rule exec_preserves_calls(1) [where A = "\<lambda>_ _. True" and N = "\<lambda>_. True"])
      (auto intro: step meth opn simp: all)
  show "exec_stmt ext env s st = Inr st' \<Longrightarrow> P st \<Longrightarrow> P st'"
    by (rule exec_preserves_calls(2) [where A = "\<lambda>_ _. True" and N = "\<lambda>_. True"])
      (auto intro: step meth opn simp: all)
  show "exec_api ext env r cs st = Inr (r', st') \<Longrightarrow> P st \<Longrightarrow> P st'"
    by (rule exec_preserves_calls(3) [where A = "\<lambda>_ _. True" and N = "\<lambda>_. True"])
      (auto intro: step meth opn simp: all)
  show "api_step ext env r c st = Inr (r', st') \<Longrightarrow> P st \<Longrightarrow> P st'"
    by (rule exec_preserves_calls(4) [where A = "\<lambda>_ _. True" and N = "\<lambda>_. True"])
      (auto intro: step meth opn simp: all)
qed

lemma ctx_step_returns_ctx: "ctx_step i m xs st = Inr (r, st') \<Longrightarrow> r = RCtx i"
  by (auto simp: ctx_step_def Let_def dest: ctx_call_Inr split: sum.splits prod.splits)

lemma flow_store_ok [simp]: "store_ok (flow sid)"
  by (simp add: flow_def new_script_def store_ok_def)

lemmas run_simps = run_flow_def flow_def new_script_def node_open_def ctx_step_def ctx_call_def
  base_ctx_def map_of_base_table base_verbs_def api_method_def script_op_defs run_do_def verb_defs
  base_call_def push_def

subsection \<open>Properties of the builder\<close>

text \<open>
  C2. \<open>node()\<close> appends exactly one node per call: after a successful run of
  \<open>flow(id, ext).c1(..)...\<close>, whatever the extension, the script has one node for each
  \<open>node(name, callback)\<close> call of the program, nested calls included.
\<close>

theorem run_flow_node_count:
  assumes "run_flow sid ext cs = Inr (r, st)"
  shows "length (script_flow (doc st)) = count_calls cs"
  using exec_frame(3) [OF assms [unfolded run_flow_def] flow_store_ok]
  by (simp add: flow_def new_script_def)

theorem run_flow_node_count_witness:
  "\<exists>r st. run_flow (JStr ''s'') None
     [ANode (JStr ''a'') [], ANode (JStr ''b'') [ApiChain [ANode (JStr ''c'') []]]] = Inr (r, st)
   \<and> length (script_flow (doc st)) = 3"
proof -
  have "\<exists>r st. run_flow (JStr ''s'') None
     [ANode (JStr ''a'') [], ANode (JStr ''b'') [ApiChain [ANode (JStr ''c'') []]]] = Inr (r, st)"
    by (simp add: run_simps)
  then obtain r st where e: "run_flow (JStr ''s'') None
     [ANode (JStr ''a'') [], ANode (JStr ''b'') [ApiChain [ANode (JStr ''c'') []]]] = Inr (r, st)"
    by blast
  with run_flow_node_count [OF e] show ?thesis by auto
qed

text \<open>
  C3. Chainability: every verb of a context, built-in or contributed by an extension,
  returns the context itself, so a chain \<open>it.v1(..).v2(..)...\<close> that runs to its end
  ends on the same context it started from.
\<close>

theorem ctx_chain_returns_ctx:
  "ctx_chain (RCtx i) cs st = Inr (r, st') \<Longrightarrow> r = RCtx i"
proof (induction cs arbitrary: st)
  case Nil
  then show ?case by simp
next
  case (Cons c cs)
  obtain m xs where c: "c = (m, xs)" by fastforce
  from Cons.prems obtain r1 st1 where s1: "ctx_step i m xs st = Inr (r1, st1)"
    and rest: "ctx_chain r1 cs st1 = Inr (r, st')"
    by (auto simp: c split: sum.splits)
  from s1 have "r1 = RCtx i" by (rule ctx_step_returns_ctx)
  with rest Cons.IH show ?case by blast
qed

theorem ctx_chain_returns_ctx_witness:
  "\<exists>r st'. ctx_chain (RCtx 0) [(''say'', [JStr ''a'']), (''exit'', [])]
     (snd (node_open None (JStr ''n'') (flow (JStr ''s'')))) = Inr (r, st') \<and> r = RCtx 0"
proof -
  have "\<exists>r st'. ctx_chain (RCtx 0) [(''say'', [JStr ''a'']), (''exit'', [])]
     (snd (node_open None (JStr ''n'') (flow (JStr ''s'')))) = Inr (r, st')"
    by (simp add: run_simps)
  then obtain r st' where e: "ctx_chain (RCtx 0) [(''say'', [JStr ''a'']), (''exit'', [])]
     (snd (node_open None (JStr ''n'') (flow (JStr ''s'')))) = Inr (r, st')"
    by blast
  with ctx_chain_returns_ctx [OF e] show ?thesis by blast
qed

text \<open>
  C8. The script identifier is set once by \<open>flow\<close> and never changed: after any
  successful run, with any extension, it is the identifier \<open>flow\<close> was given.
\<close>

theorem run_flow_keeps_id:
  assumes "run_flow sid ext cs = Inr (r, st)"
  shows "script_id (doc st) = sid"
proof -
  have "script_id (doc st) = script_id (doc (flow sid))"
  proof (rule exec_preserves(3) [where P = "\<lambda>st'. script_id (doc st') = script_id (doc (flow sid))"])
    show "exec_api ext [] RApi cs (flow sid) = Inr (r, st)"
      using assms by (simp add: run_flow_def)
  qed (auto dest!: ctx_step_frame api_method_frame node_open_frame simp: grows_def)
  then show ?thesis by (simp add: flow_def new_script_def)
qed


theorem run_flow_keeps_id_witness:
  "\<exists>r st. run_flow (JStr ''s1'') None
     [ACall ''meta'' [JStr ''me''], ANode (JStr ''a'') [CtxChain 0 [(''exit'', [])]]] = Inr (r, st)
   \<and> script_id (doc st) = JStr ''s1''"
proof -
  have "\<exists>r st. run_flow (JStr ''s1'') None
     [ACall ''meta'' [JStr ''me''], ANode (JStr ''a'') [CtxChain 0 [(''exit'', [])]]] = Inr (r, st)"
    by (simp add: run_simps)
  then obtain r st where e: "run_flow (JStr ''s1'') None
     [ACall ''meta'' [JStr ''me''], ANode (JStr ''a'') [CtxChain 0 [(''exit'', [])]]] = Inr (r, st)"
    by blast
  with run_flow_keeps_id [OF e] show ?thesis by blast
qed

text \<open>
  C13. \<open>onException\<close> keeps a single handler: calling it twice leaves exactly the
  state one call with the second arguments leaves.
\<close>

theorem onException_last_wins:
  "exec_api ext env RApi [ACall ''onException'' xs, ACall ''onException'' ys] st =
     Inr (RApi, st\<lparr>doc := onException (arg ys 0) (arg ys 1) (doc st)\<rparr>)"
  by (simp add: api_method_def onException_def)

text \<open>
  C15. Contexts are independent: a verb call on the context of node \<open>i\<close> changes
  neither another node nor another node's context (its verbs and its state).
\<close>

theorem ctx_step_isolated:
  assumes "ctx_step i m xs st = Inr (r, st')" and "j \<noteq> i"
  shows "ctxs st' ! j = ctxs st ! j \<and> script_flow (doc st') ! j = script_flow (doc st) ! j"
  using assms by (auto simp: ctx_step_def split: sum.splits prod.splits)

theorem ctx_step_isolated_witness:
  "\<exists>r st'. ctx_step 0 ''say'' [JStr ''hi'']
       (snd (node_open None (JStr ''b'') (snd (node_open None (JStr ''a'') (flow (JStr ''s''))))))
     = Inr (r, st')
   \<and> script_flow (doc st') ! 1 = \<lparr>node_id = JStr ''b'', sequence = []\<rparr>"
proof -
  let ?st = "snd (node_open None (JStr ''b'') (snd (node_open None (JStr ''a'') (flow (JStr ''s'')))))"
  have "\<exists>r st'. ctx_step 0 ''say'' [JStr ''hi''] ?st = Inr (r, st')"
    by (simp add: run_simps)
  then obtain r st' where e: "ctx_step 0 ''say'' [JStr ''hi''] ?st = Inr (r, st')"
    by blast
  have "script_flow (doc ?st) ! 1 = \<lparr>node_id = JStr ''b'', sequence = []\<rparr>"
    by (simp add: run_simps)
  with ctx_step_isolated [OF e, of 1] e show ?thesis by auto
qed

end
