(* ===== verification/Loader.thy ===== *)
theory Loader
  imports Builder
begin

text \<open>
  The part of the command-line tool \<open>src/src/cli.ts\<close> that decides what is written
  (lines 25-27): from the loaded module \<open>mod\<close> it selects
  \<open>typeof mod.default === "function" ? mod.default : mod.default?.build?.() ?? mod\<close>,
  calls its \<open>build\<close> method if it has one, and writes the result with \<open>writeJson\<close>,
  that is \<open>JSON.stringify\<close>. Argument parsing, module loading and the file system are not
  modelled. A module value is a function (\<open>MFun r\<close>, whose call without arguments
  returns \<open>r\<close>), an object whose properties may hold functions (\<open>MObj\<close>), or plain
  data (\<open>MData\<close>). The builder handle is seen by the loader through its \<open>build\<close>
  method only (\<open>api_mval\<close>); its other methods are functions, which the loader never
  calls and \<open>JSON.stringify\<close> skips.
\<close>

datatype mval = MFun mval | MObj "(string, mval) obj" | MData jsval

fun is_fun :: "mval \<Rightarrow> bool" where
  "is_fun (MFun _) = True"
| "is_fun _ = False"

definition nullish :: "mval \<Rightarrow> bool" where
  "nullish v \<longleftrightarrow> v = MData JUndef \<or> v = MData JNull"

text \<open>A property read; reading a property of \<open>undefined\<close> or \<open>null\<close> raises.\<close>

fun read_prop :: "mval \<Rightarrow> string \<Rightarrow> error + mval" where
  "read_prop (MData JUndef) k = Inl (TypeError k)"
| "read_prop (MData JNull) k = Inl (TypeError k)"
| "read_prop (MData v) k = Inr (MData (get v k))"
| "read_prop (MFun _) k = Inr (MData JUndef)"
| "read_prop (MObj ps) k = Inr (case map_of ps k of None \<Rightarrow> MData JUndef | Some v \<Rightarrow> v)"

text \<open>\<open>v?.build?.()\<close>\<close>

definition opt_build :: "mval \<Rightarrow> error + mval" where
  "opt_build v =
     (if nullish v then Inr (MData JUndef)
      else (case read_prop v ''build'' of
              Inl e \<Rightarrow> Inl e
            | Inr b \<Rightarrow> (if nullish b then Inr (MData JUndef)
                       else (case b of MFun r \<Rightarrow> Inr r | _ \<Rightarrow> Inl (TypeError ''build'')))))"

definition select_flow :: "mval \<Rightarrow> error + mval" where
  "select_flow m =
     (case read_prop m ''default'' of
        Inl e \<Rightarrow> Inl e
      | Inr d \<Rightarrow> (if is_fun d then Inr d
                 else (case opt_build d of Inl e \<Rightarrow> Inl e | Inr x \<Rightarrow> Inr (if nullish x then m else x))))"

text \<open>\<open>typeof flow.build === "function" ? flow.build() : flow\<close>\<close>

definition written_value :: "mval \<Rightarrow> error + mval" where
  "written_value f =
     (case read_prop f ''build'' of Inl e \<Rightarrow> Inl e | Inr (MFun r) \<Rightarrow> Inr r | Inr _ \<Rightarrow> Inr f)"

text \<open>\<open>JSON.stringify\<close> on module values: functions give \<open>undefined\<close> and are skipped
  as properties.\<close>

fun mjson :: "mval \<Rightarrow> json_value option"
  and mobj_json :: "(string, mval) obj \<Rightarrow> (string, json_value) obj" where
  "mjson (MFun _) = None"
| "mjson (MData v) = to_json v"
| "mjson (MObj ps) = Some (JSObj (mobj_json ps))"
| "mobj_json [] = []"
| "mobj_json ((k, v) # ps) = (case mjson v of None \<Rightarrow> mobj_json ps | Some j \<Rightarrow> (k, j) # mobj_json ps)"

text \<open>What \<open>JSON.stringify\<close> makes of the value the tool passes to \<open>writeJson\<close>:
  \<open>None\<close> when it returns \<open>undefined\<close> (theory \<open>JsonText\<close> shows what
  \<open>writeJson\<close> then does).\<close>

definition cli_output :: "mval \<Rightarrow> error + json_value option" where
  "cli_output m =
     (case select_flow m of
        Inl e \<Rightarrow> Inl e
      | Inr f \<Rightarrow> (case written_value f of Inl e \<Rightarrow> Inl e | Inr v \<Rightarrow> Inr (mjson v)))"

definition api_mval :: "bstate \<Rightarrow> mval" where
  "api_mval st = MObj [(''build'', MFun (MData (script_js (doc st))))]"

lemmas loader_defs = cli_output_def select_flow_def opt_build_def written_value_def nullish_def
  api_mval_def

definition added_ok :: "bstate \<Rightarrow> bool" where
  "added_ok st \<longleftrightarrow> fst ` set (script_added (doc st)) \<subseteq> {''author'', ''_comment''}"

subsection \<open>What the tool writes\<close>

text \<open>The only properties added to a script after its creation are \<open>author\<close> and
  \<open>_comment\<close>; in particular a built script has no \<open>build\<close> property.\<close>

lemma run_flow_added_ok:
  assumes "run_flow sid ext cs = Inr (r, st)"
  shows "added_ok st"
proof (rule exec_preserves(3) [where P = added_ok])
  show "exec_api ext [] RApi cs (flow sid) = Inr (r, st)"
    using assms by (simp add: run_flow_def)
  show "added_ok (flow sid)"
    by (simp add: added_ok_def flow_def new_script_def)
next
  fix i m xs st r st'
  assume s: "ctx_step i m xs st = Inr (r, st')" and "added_ok st"
  from s have "script_added (doc st') = script_added (doc st)"
    by (auto simp: ctx_step_def split: sum.splits prod.splits)
  with \<open>added_ok st\<close> show "added_ok st'"
    by (simp add: added_ok_def)
next
  fix m xs st r st'
  assume a: "api_method m xs st = Inr (r, st')" "added_ok st"
  let ?A = "script_added (doc st)"
  from a(1) have "script_added (doc st') \<in>
      {?A, assign ''author'' (arg xs 0) ?A, assign ''_comment'' (arg xs 0) ?A}"
    by (auto simp: api_method_def script_op_defs split: if_splits)
  with a(2) show "added_ok st'"
    by (elim insertE emptyE) (simp_all add: added_ok_def set_keys_assign)
next
  fix name st i st'
  assume o: "node_open ext name st = (i, st')" and "added_ok st"
  from o have "script_added (doc st') = script_added (doc st)"
    by (auto simp: node_open_def Let_def)
  with \<open>added_ok st\<close> show "added_ok st'"
    by (simp add: added_ok_def)
qed

lemma get_script_js_build:
  assumes "added_ok st"
  shows "get (script_js (doc st)) ''build'' = JUndef"
proof -
  have "''build'' \<notin> fst ` set (script_added (doc st))"
    using assms by (auto simp: added_ok_def)
  then have "map_of (script_added (doc st)) ''build'' = None"
    by (simp add: map_of_eq_None_iff)
  then show ?thesis by (simp add: script_js_def)
qed

text \<open>
  C17. When the module's default export is the builder handle, the tool writes the built
  script: \<open>mod.default.build()\<close> is selected, it has no \<open>build\<close> of its own, and
  its JSON is written.
\<close>

theorem cli_writes_built_script:
  assumes "run_flow sid ext cs = Inr (r, st)"
  shows "cli_output (MObj [(''default'', api_mval st)]) = Inr (to_json (script_js (doc st)))"
proof -
  have "get (script_js (doc st)) ''build'' = JUndef"
    using run_flow_added_ok [OF assms] by (rule get_script_js_build)
  then show ?thesis
    by (simp add: loader_defs script_js_def)
qed

theorem cli_writes_built_script_witness:
  "\<exists>r st. run_flow (JStr ''s1'') None [ANode (JStr ''n1'') [CtxChain 0 [(''exit'', [])]]] = Inr (r, st)
   \<and> cli_output (MObj [(''default'', api_mval st)]) =
       Inr (Some (JSObj [(''id'', JSStr ''s1''),
         (''flow'', JSArr [JSObj [(''id'', JSStr ''n1''),
            (''sequence'', JSArr [JSObj [(''action'', JSStr ''exit'')]])]]),
         (''hooks'', JSArr [])]))"
proof -
  have "\<exists>r st. run_flow (JStr ''s1'') None [ANode (JStr ''n1'') [CtxChain 0 [(''exit'', [])]]]
    = Inr (r, st)"
    by (simp add: run_simps)
  then obtain r st where e: "run_flow (JStr ''s1'') None [ANode (JStr ''n1'') [CtxChain 0 [(''exit'', [])]]]
    = Inr (r, st)"
    by blast
  moreover have "script_js (doc st) = JObj [(''id'', JStr ''s1''),
     (''flow'', JArr [JObj [(''id'', JStr ''n1''), (''sequence'', JArr [JObj [(''action'', JStr ''exit'')]])]]),
     (''hooks'', JArr []), (''exceptionally'', JUndef)]"
    using e [symmetric] by (simp add: run_simps script_js_def node_js_def)
  ultimately show ?thesis
    using cli_writes_built_script [OF e] by auto
qed

text \<open>
  C18. When the default export is an already built document (an object without
  \<open>build\<close>), \<open>mod.default?.build?.()\<close> is \<open>undefined\<close>, the tool falls back to the
  module object and writes the document wrapped as \<open>{"default": ...}\<close>.
\<close>

theorem cli_built_document_wrapped:
  assumes "''build'' \<notin> fst ` set ps"
  shows "cli_output (MObj [(''default'', MData (JObj ps))]) =
           Inr (Some (JSObj [(''default'', JSObj (obj_json ps))]))"
proof -
  have "map_of ps ''build'' = None"
    using assms by (simp add: map_of_eq_None_iff)
  then show ?thesis by (simp add: loader_defs)
qed

theorem cli_built_document_wrapped_witness:
  "cli_output (MObj [(''default'', MData (JObj [(''id'', JStr ''s''), (''flow'', JArr [])]))]) =
     Inr (Some (JSObj [(''default'', JSObj [(''id'', JSStr ''s''), (''flow'', JSArr [])])]))"
proof -
  have "''build'' \<notin> fst ` set [(''id'', JStr ''s''), (''flow'', JArr [])]" by simp
  from cli_built_document_wrapped [OF this] show ?thesis by simp
qed

text \<open>
  C19. A module with neither a default export nor a \<open>build\<close> export raises no error:
  the tool writes the module object itself.
\<close>

theorem cli_no_export_writes_module:
  assumes "''default'' \<notin> fst ` set ps" and "''build'' \<notin> fst ` set ps"
  shows "cli_output (MObj ps) = Inr (mjson (MObj ps))"
proof -
  have "map_of ps ''default'' = None" and "map_of ps ''build'' = None"
    using assms by (simp_all add: map_of_eq_None_iff)
  then show ?thesis by (simp add: loader_defs)
qed

theorem cli_no_export_writes_module_witness:
  "cli_output (MObj [(''helper'', MFun (MData JNull)), (''x'', MData (JNum 1))]) =
     Inr (Some (JSObj [(''x'', JSNum 1)]))"
proof -
  have "''default'' \<notin> fst ` set [(''helper'', MFun (MData JNull)), (''x'', MData (JNum 1))]"
    and "''build'' \<notin> fst ` set [(''helper'', MFun (MData JNull)), (''x'', MData (JNum 1))]"
    by simp_all
  from cli_no_export_writes_module [OF this] show ?thesis by simp
qed

end
