(* ===== verification/JsonText.thy ===== *)
theory JsonText
  imports JsValue
begin

text \<open>
  The text the command-line tool writes (\<open>src/src/cli.ts\<close> line 27): \<open>writeJson\<close> of
  \<open>fs-extra\<close> (its \<open>jsonfile\<close> stringify) computes \<open>JSON.stringify(v, null, 2)\<close>, replaces
  every line feed by the end-of-line string (a line feed again) and appends one; when
  \<open>JSON.stringify\<close> returns \<open>undefined\<close> the call \<open>.replace\<close> on it raises a
  \<open>TypeError\<close>. The printer \<open>jtext\<close> follows the serialisation algorithm of
  ECMA-262 (\<open>SerializeJSONProperty\<close>, \<open>QuoteJSONString\<close>, the indentation rules
  of \<open>SerializeJSONArray\<close>/\<open>SerializeJSONObject\<close> with a gap of two spaces).
  A string is a list of 8-bit characters here.

  To show that the text determines the document (keys, their order and the omitted
  properties included) the theory defines a reader of JSON text (\<open>pstr\<close>,
  \<open>pnum\<close>, \<open>pval\<close>, \<open>parse_json\<close>), which is not part of the program. It takes fuel;
  \<open>pval_jtext_aux\<close> shows that fuel above the size of the value is enough.
\<close>

definition json_gap :: string where
  "json_gap = ''  ''"

definition nl :: char where "nl = CHR 0x0A"

definition hex_digit :: "nat \<Rightarrow> char" where
  "hex_digit k = (if k < 10 then char_of (48 + k) else char_of (87 + k))"

definition quote_char :: "char \<Rightarrow> string" where
  "quote_char c =
     (if c = CHR 0x08 then [CHR 0x5C, CHR ''b'']
      else if c = CHR 0x09 then [CHR 0x5C, CHR ''t'']
      else if c = CHR 0x0A then [CHR 0x5C, CHR ''n'']
      else if c = CHR 0x0C then [CHR 0x5C, CHR ''f'']
      else if c = CHR 0x0D then [CHR 0x5C, CHR ''r'']
      else if c = CHR 0x22 then [CHR 0x5C, CHR 0x22]
      else if c = CHR 0x5C then [CHR 0x5C, CHR 0x5C]
      else if of_char c < (32::nat) then
        [CHR 0x5C, CHR ''u'', CHR ''0'', CHR ''0'',
         hex_digit (of_char c div 16), hex_digit (of_char c mod 16)]
      else [c])"

definition quote :: "string \<Rightarrow> string" where
  "quote s = CHR 0x22 # concat (map quote_char s) @ [CHR 0x22]"

fun nat_text :: "nat \<Rightarrow> string" where
  "nat_text n = (if n < 10 then [char_of (48 + n)] else nat_text (n div 10) @ [char_of (48 + n mod 10)])"

declare nat_text.simps [simp del]

definition int_text :: "int \<Rightarrow> string" where
  "int_text i = (if i < 0 then CHR ''-'' # nat_text (nat (- i)) else nat_text (nat i))"

fun jtext :: "string \<Rightarrow> json_value \<Rightarrow> string"
  and arr_text :: "string \<Rightarrow> json_value list \<Rightarrow> string"
  and obj_text :: "string \<Rightarrow> (string \<times> json_value) list \<Rightarrow> string" where
  "jtext ind JSNull = ''null''"
| "jtext ind (JSBool b) = (if b then ''true'' else ''false'')"
| "jtext ind (JSNum i) = int_text i"
| "jtext ind (JSStr s) = quote s"
| "jtext ind (JSArr vs) =
     (if vs = [] then ''[]'' else CHR ''['' # arr_text (ind @ json_gap) vs @ nl # ind @ '']'')"
| "jtext ind (JSObj ps) =
     (if ps = [] then ''{}'' else CHR ''{'' # obj_text (ind @ json_gap) ps @ nl # ind @ ''}'')"
| "arr_text ind [] = []"
| "arr_text ind (v # vs) =
     nl # ind @ jtext ind v @ (if vs = [] then [] else CHR '','' # arr_text ind vs)"
| "obj_text ind [] = []"
| "obj_text ind ((k, v) # ps) =
     nl # ind @ quote k @ CHR '':'' # CHR '' '' # jtext ind v
     @ (if ps = [] then [] else CHR '','' # obj_text ind ps)"

subsection \<open>A reader of JSON text\<close>

definition is_ws :: "char \<Rightarrow> bool" where
  "is_ws c \<longleftrightarrow> c = CHR '' '' \<or> c = CHR 0x09 \<or> c = CHR 0x0A \<or> c = CHR 0x0D"

definition is_digit :: "char \<Rightarrow> bool" where
  "is_digit c \<longleftrightarrow> (48::nat) \<le> of_char c \<and> of_char c < (58::nat)"

definition skip_ws :: "string \<Rightarrow> string" where
  "skip_ws = dropWhile is_ws"

definition digits_val :: "string \<Rightarrow> nat" where
  "digits_val ds = foldl (\<lambda>a c. 10 * a + (of_char c - 48)) 0 ds"

definition hex_val :: "char \<Rightarrow> nat option" where
  "hex_val c = (let k = of_char c in
     if 48 \<le> k \<and> k < 58 then Some (k - 48)
     else if 97 \<le> k \<and> k < 103 then Some (k - 87)
     else if 65 \<le> k \<and> k < 71 then Some (k - 55) else None)"

definition unesc :: "char \<Rightarrow> char option" where
  "unesc e =
     (if e = CHR ''b'' then Some (CHR 0x08) else if e = CHR ''t'' then Some (CHR 0x09)
      else if e = CHR ''n'' then Some (CHR 0x0A) else if e = CHR ''f'' then Some (CHR 0x0C)
      else if e = CHR ''r'' then Some (CHR 0x0D) else if e = CHR 0x22 then Some (CHR 0x22)
      else if e = CHR 0x5C then Some (CHR 0x5C) else if e = CHR ''/'' then Some (CHR ''/'')
      else None)"

fun pstr :: "string \<Rightarrow> (string \<times> string) option"
  and pesc :: "string \<Rightarrow> (string \<times> string) option" where
  "pstr [] = None"
| "pstr (c # cs) =
     (if c = CHR 0x22 then Some ([], cs)
      else if c = CHR 0x5C then pesc cs
      else if of_char c < (32::nat) then None
      else map_option (apfst (Cons c)) (pstr cs))"
| "pesc [] = None"
| "pesc (e # cs) =
     (if e = CHR ''u'' then
        (case cs of
           a # b # c # d # r \<Rightarrow>
             (case (hex_val a, hex_val b, hex_val c, hex_val d) of
                (Some h1, Some h2, Some h3, Some h4) \<Rightarrow>
                  (let k = ((h1 * 16 + h2) * 16 + h3) * 16 + h4 in
                   if k < 256 then map_option (apfst (Cons (char_of k))) (pstr r) else None)
              | _ \<Rightarrow> None)
         | _ \<Rightarrow> None)
      else (case unesc e of Some ch \<Rightarrow> map_option (apfst (Cons ch)) (pstr cs) | None \<Rightarrow> None))"


fun lit :: "string \<Rightarrow> string \<Rightarrow> string option" where
  "lit [] s = Some s"
| "lit (c # cs) (d # ds) = (if c = d then lit cs ds else None)"
| "lit (c # cs) [] = None"

definition pnum :: "string \<Rightarrow> (json_value \<times> string) option" where
  "pnum s =
     (let (neg, s1) = (case s of c # r \<Rightarrow> if c = CHR ''-'' then (True, r) else (False, s)
                                | [] \<Rightarrow> (False, s));
          ds = takeWhile is_digit s1;
          k = int (digits_val ds)
      in if ds = [] then None else Some (JSNum (if neg then - k else k), dropWhile is_digit s1))"

text \<open>The reader takes fuel: one unit per value and per array element or object member.\<close>

fun pval :: "nat \<Rightarrow> string \<Rightarrow> (json_value \<times> string) option"
  and pelems :: "nat \<Rightarrow> string \<Rightarrow> (json_value list \<times> string) option"
  and pmembers :: "nat \<Rightarrow> string \<Rightarrow> ((string \<times> json_value) list \<times> string) option" where
  "pval 0 s = None"
| "pval (Suc n) s =
     (case skip_ws s of
        [] \<Rightarrow> None
      | c # r \<Rightarrow>
          if c = CHR ''n'' then map_option (Pair JSNull) (lit ''ull'' r)
          else if c = CHR ''t'' then map_option (Pair (JSBool True)) (lit ''rue'' r)
          else if c = CHR ''f'' then map_option (Pair (JSBool False)) (lit ''alse'' r)
          else if c = CHR 0x22 then map_option (apfst JSStr) (pstr r)
          else if c = CHR ''['' then
            (case skip_ws r of
               [] \<Rightarrow> None
             | d # r' \<Rightarrow> if d = CHR '']'' then Some (JSArr [], r')
                         else map_option (apfst JSArr) (pelems n r))
          else if c = CHR ''{'' then
            (case skip_ws r of
               [] \<Rightarrow> None
             | d # r' \<Rightarrow> if d = CHR ''}'' then Some (JSObj [], r')
                         else map_option (apfst JSObj) (pmembers n r))
          else pnum (c # r))"
| "pelems 0 s = None"
| "pelems (Suc n) s =
     (case pval n s of
        None \<Rightarrow> None
      | Some (v, r) \<Rightarrow>
          (case skip_ws r of
             [] \<Rightarrow> None
           | d # r' \<Rightarrow> if d = CHR '','' then map_option (apfst (Cons v)) (pelems n r')
                       else if d = CHR '']'' then Some ([v], r') else None))"
| "pmembers 0 s = None"
| "pmembers (Suc n) s =
     (case skip_ws s of
        [] \<Rightarrow> None
      | d # r \<Rightarrow>
          if d \<noteq> CHR 0x22 then None
          else (case pstr r of
                  None \<Rightarrow> None
                | Some (k, r1) \<Rightarrow>
                    (case skip_ws r1 of
                       [] \<Rightarrow> None
                     | e # r2 \<Rightarrow>
                         if e \<noteq> CHR '':'' then None
                         else (case pval n r2 of
                                 None \<Rightarrow> None
                               | Some (v, r3) \<Rightarrow>
                                   (case skip_ws r3 of
                                      [] \<Rightarrow> None
                                    | f # r4 \<Rightarrow>
                                        if f = CHR '','' then map_option (apfst (Cons (k, v))) (pmembers n r4)
                                        else if f = CHR ''}'' then Some ([(k, v)], r4) else None)))))"

definition parse_json :: "nat \<Rightarrow> string \<Rightarrow> json_value option" where
  "parse_json n s = (case pval n s of None \<Rightarrow> None | Some (v, r) \<Rightarrow> if skip_ws r = [] then Some v else None)"


definition write_json_text :: "json_value option \<Rightarrow> error + string" where
  "write_json_text j = (case j of None \<Rightarrow> Inl (TypeError ''replace'') | Some v \<Rightarrow> Inr (jtext [] v @ [nl]))"

text \<open>Side conditions of the reader lemmas: an indentation is made of spaces, and a
  number is not followed by a digit.\<close>

definition is_indent :: "string \<Rightarrow> bool" where
  "is_indent ind \<longleftrightarrow> (\<forall>c\<in>set ind. c = CHR '' '')"

definition no_digit_next :: "string \<Rightarrow> bool" where
  "no_digit_next r \<longleftrightarrow> (case r of [] \<Rightarrow> True | c # _ \<Rightarrow> \<not> is_digit c)"

subsection \<open>Reading back what is printed\<close>

lemma hex_val_hex_digit: "k < 16 \<Longrightarrow> hex_val (hex_digit k) = Some k"
  by (simp add: hex_val_def hex_digit_def Let_def)

lemma pstr_quote_char: "pstr (quote_char c @ r) = map_option (apfst (Cons c)) (pstr r)"
proof (cases "of_char c < (32::nat)")
  case True
  then have "hex_val (hex_digit (of_char c div 16)) = Some (of_char c div 16)"
    and "hex_val (hex_digit (of_char c mod 16)) = Some (of_char c mod 16)"
    by (simp_all add: hex_val_hex_digit)
  moreover have "hex_val (CHR ''0'') = Some 0" by (simp add: hex_val_def)
  moreover have "char_of (of_char c div 16 * 16 + of_char c mod 16) = c"
    by simp
  ultimately show ?thesis
    using True unfolding quote_char_def by (auto simp: unesc_def Let_def)
next
  case False
  then show ?thesis unfolding quote_char_def by (auto simp: unesc_def)
qed

lemma pstr_quote: "pstr (concat (map quote_char s) @ CHR 0x22 # r) = Some (s, r)"
  by (induction s) (simp_all add: pstr_quote_char)

lemma nat_text_digits: "c \<in> set (nat_text n) \<Longrightarrow> is_digit c"
  by (induction n rule: nat_text.induct) (subst (asm) nat_text.simps, auto simp: is_digit_def split: if_splits)

lemma nat_text_ne: "nat_text n \<noteq> []"
  by (subst nat_text.simps) simp

lemma digits_val_nat_text: "digits_val (nat_text n) = n"
proof (induction n rule: nat_text.induct)
  case (1 n)
  then show ?case
    by (subst nat_text.simps) (simp add: digits_val_def)
qed


lemma takeWhile_nat_text:
  "no_digit_next r \<Longrightarrow> takeWhile is_digit (nat_text n @ r) = nat_text n
    \<and> dropWhile is_digit (nat_text n @ r) = r"
  using nat_text_digits [of _ n]
  by (cases r) (simp_all add: no_digit_next_def takeWhile_append2 dropWhile_append2)

lemma pnum_int_text: "no_digit_next r \<Longrightarrow> pnum (int_text i @ r) = Some (JSNum i, r)"
proof -
  assume r: "no_digit_next r"
  obtain d ds where ne: "nat_text (nat \<bar>i\<bar>) = d # ds"
    using nat_text_ne by (cases "nat_text (nat \<bar>i\<bar>)") auto
  have "is_digit d" using nat_text_digits [of d "nat \<bar>i\<bar>"] ne by simp
  then have "d \<noteq> CHR ''-''" by (auto simp: is_digit_def)
  then show ?thesis
    using takeWhile_nat_text [OF r, of "nat \<bar>i\<bar>"] ne nat_text_ne digits_val_nat_text [of "nat \<bar>i\<bar>"]
    by (auto simp: pnum_def int_text_def)
qed


lemma skip_ws_ws: "\<forall>c\<in>set w. is_ws c \<Longrightarrow> skip_ws (w @ x) = skip_ws x"
  by (induction w) (simp_all add: skip_ws_def)

lemma skip_ws_Cons: "\<not> is_ws c \<Longrightarrow> skip_ws (c # x) = c # x"
  by (simp add: skip_ws_def)

lemma indent_ws: "is_indent ind \<Longrightarrow> \<forall>c\<in>set (nl # ind). is_ws c"
  by (auto simp: is_indent_def is_ws_def nl_def)

lemma pval_ws: "\<forall>c\<in>set w. is_ws c \<Longrightarrow> pval n (w @ x) = pval n x"
  by (cases n) (simp_all add: skip_ws_ws)

lemma int_text_start: "\<exists>c cs. int_text i = c # cs \<and> \<not> is_ws c \<and> c \<notin> set ''ntf[{]}'' \<and> c \<noteq> CHR 0x22"
proof -
  obtain d ds where ne: "nat_text (nat \<bar>i\<bar>) = d # ds"
    using nat_text_ne by (cases "nat_text (nat \<bar>i\<bar>)") auto
  have "is_digit d" using nat_text_digits [of d "nat \<bar>i\<bar>"] ne by simp
  then show ?thesis using ne
    by (auto simp: int_text_def is_digit_def is_ws_def)
qed

lemma jtext_start: "\<exists>c cs. jtext ind v = c # cs \<and> \<not> is_ws c \<and> c \<noteq> CHR '']'' \<and> c \<noteq> CHR ''}''"
proof (cases v)
  case (JSNum i)
  then show ?thesis using int_text_start [of i] by auto
qed (auto simp: quote_def is_ws_def)

lemma pval_int_text: "no_digit_next r \<Longrightarrow> pval (Suc n) (int_text i @ r) = Some (JSNum i, r)"
  using int_text_start [of i] pnum_int_text [of r i] by (auto simp: skip_ws_Cons)

lemma gap_indent: "is_indent ind \<Longrightarrow> is_indent (ind @ json_gap)"
  by (simp add: is_indent_def json_gap_def)

lemma arr_text_skip:
  assumes "is_indent ind" "vs \<noteq> []"
  shows "\<exists>c cs. skip_ws (arr_text ind vs @ t) = c # cs \<and> c \<noteq> CHR '']''"
proof -
  obtain v vs' where vs: "vs = v # vs'" using assms(2) by (cases vs) auto
  obtain c cs where c: "jtext ind v = c # cs" "\<not> is_ws c" "c \<noteq> CHR '']''"
    using jtext_start by blast
  show ?thesis
    using skip_ws_ws [OF indent_ws [OF assms(1)]] c
    by (simp add: vs skip_ws_Cons)
qed

lemma obj_text_skip:
  assumes "is_indent ind" "ps \<noteq> []"
  shows "\<exists>cs. skip_ws (obj_text ind ps @ t) = CHR 0x22 # cs"
proof -
  obtain k v ps' where ps: "ps = (k, v) # ps'" using assms(2) by (cases ps) auto
  show ?thesis
    using skip_ws_ws [OF indent_ws [OF assms(1)]]
    by (simp add: ps skip_ws_Cons quote_def is_ws_def)
qed

lemma pval_jtext_aux:
  "\<forall>n r. is_indent ind \<longrightarrow> size v < n \<longrightarrow> no_digit_next r \<longrightarrow> pval n (jtext ind v @ r) = Some (v, r)"
  "\<forall>n ind0 r. is_indent ind \<longrightarrow> is_indent ind0 \<longrightarrow> vs \<noteq> [] \<longrightarrow> size_list size vs < n \<longrightarrow>
      pelems n (arr_text ind vs @ nl # ind0 @ CHR '']'' # r) = Some (vs, r)"
  "\<forall>n ind0 r. is_indent ind \<longrightarrow> is_indent ind0 \<longrightarrow> ps \<noteq> [] \<longrightarrow>
      size_list (size_prod (\<lambda>x. 0) size) ps < n \<longrightarrow>
      pmembers n (obj_text ind ps @ nl # ind0 @ CHR ''}'' # r) = Some (ps, r)"
proof (induction ind v and ind vs and ind ps rule: jtext_arr_text_obj_text.induct)
  case (1 ind)
  then show ?case by (auto simp: gr0_conv_Suc skip_ws_def is_ws_def)
next
  case (2 ind b)
  then show ?case by (auto simp: gr0_conv_Suc skip_ws_def is_ws_def)
next
  case (3 ind i)
  then show ?case by (auto simp: gr0_conv_Suc pval_int_text simp del: pval.simps)
next
  case (4 ind s)
  then show ?case by (auto simp: gr0_conv_Suc skip_ws_def is_ws_def quote_def pstr_quote)
next
  case (5 ind vs)
  show ?case
  proof (intro allI impI)
    fix n r assume i: "is_indent ind" and s: "size (JSArr vs) < n" and r: "no_digit_next r"
    then obtain m where n: "n = Suc m" by (cases n) auto
    show "pval n (jtext ind (JSArr vs) @ r) = Some (JSArr vs, r)"
    proof (cases "vs = []")
      case True
      then show ?thesis by (simp add: n skip_ws_def is_ws_def)
    next
      case False
      obtain c cs where "skip_ws (arr_text (ind @ json_gap) vs @ nl # ind @ CHR '']'' # r) = c # cs"
        "c \<noteq> CHR '']''"
        using arr_text_skip [OF gap_indent [OF i] False] by blast
      moreover have "pelems m (arr_text (ind @ json_gap) vs @ nl # ind @ CHR '']'' # r) = Some (vs, r)"
        using "5.IH" [OF False] i gap_indent [OF i] s False by (simp add: n)
      ultimately show ?thesis
        using False by (simp add: n skip_ws_Cons is_ws_def)
    qed
  qed
next
  case (6 ind ps)
  show ?case
  proof (intro allI impI)
    fix n r assume i: "is_indent ind" and s: "size (JSObj ps) < n" and r: "no_digit_next r"
    then obtain m where n: "n = Suc m" by (cases n) auto
    show "pval n (jtext ind (JSObj ps) @ r) = Some (JSObj ps, r)"
    proof (cases "ps = []")
      case True
      then show ?thesis by (simp add: n skip_ws_def is_ws_def)
    next
      case False
      obtain cs where "skip_ws (obj_text (ind @ json_gap) ps @ nl # ind @ CHR ''}'' # r) = CHR 0x22 # cs"
        using obj_text_skip [OF gap_indent [OF i] False] by blast
      moreover have "pmembers m (obj_text (ind @ json_gap) ps @ nl # ind @ CHR ''}'' # r) = Some (ps, r)"
        using "6.IH" [OF False] i gap_indent [OF i] s False by (simp add: n)
      ultimately show ?thesis
        using False by (simp add: n skip_ws_Cons is_ws_def)
    qed
  qed
next
  case (7 ind)
  then show ?case by simp
next
  case (8 ind v vs)
  show ?case
  proof (intro allI impI)
    fix n ind0 r assume i: "is_indent ind" and i0: "is_indent ind0"
      and s: "size_list size (v # vs) < n"
    then obtain m where n: "n = Suc m" by (cases n) auto
    let ?rest = "(if vs = [] then [] else CHR '','' # arr_text ind vs) @ nl # ind0 @ CHR '']'' # r"
    have nd: "no_digit_next ?rest" by (simp add: no_digit_next_def is_digit_def nl_def)
    have "pval m (nl # ind @ jtext ind v @ ?rest) = Some (v, ?rest)"
      using pval_ws [OF indent_ws [OF i], of m "jtext ind v @ ?rest"] "8.IH"(1) i s nd
      by (simp add: n)
    moreover have "vs \<noteq> [] \<Longrightarrow> pelems m (arr_text ind vs @ nl # ind0 @ CHR '']'' # r) = Some (vs, r)"
      using "8.IH"(2) i i0 s by (simp add: n)
    moreover have "skip_ws (nl # ind0 @ CHR '']'' # r) = CHR '']'' # r"
      using skip_ws_ws [OF indent_ws [OF i0], of "CHR '']'' # r"] by (simp add: skip_ws_Cons is_ws_def)
    ultimately show "pelems n (arr_text ind (v # vs) @ nl # ind0 @ CHR '']'' # r) = Some (v # vs, r)"
      by (simp add: n skip_ws_Cons is_ws_def)
  qed
next
  case (9 ind)
  then show ?case by simp
next
  case (10 ind k v ps)
  show ?case
  proof (intro allI impI)
    fix n ind0 r assume i: "is_indent ind" and i0: "is_indent ind0"
      and s: "size_list (size_prod (\<lambda>x. 0) size) ((k, v) # ps) < n"
    then obtain m where n: "n = Suc m" by (cases n) auto
    let ?rest = "(if ps = [] then [] else CHR '','' # obj_text ind ps) @ nl # ind0 @ CHR ''}'' # r"
    have nd: "no_digit_next ?rest" by (simp add: no_digit_next_def is_digit_def nl_def)
    have "pval m (CHR '' '' # jtext ind v @ ?rest) = Some (v, ?rest)"
      using pval_ws [of "[CHR '' '']" m "jtext ind v @ ?rest"] "10.IH"(1) i s nd
      by (simp add: n is_ws_def)
    moreover have "ps \<noteq> [] \<Longrightarrow> pmembers m (obj_text ind ps @ nl # ind0 @ CHR ''}'' # r) = Some (ps, r)"
      using "10.IH"(2) i i0 s by (simp add: n)
    moreover have "skip_ws (nl # ind0 @ CHR ''}'' # r) = CHR ''}'' # r"
      using skip_ws_ws [OF indent_ws [OF i0], of "CHR ''}'' # r"] by (simp add: skip_ws_Cons is_ws_def)
    moreover have "skip_ws (nl # ind @ quote k @ t) = quote k @ t" for t
      using skip_ws_ws [OF indent_ws [OF i], of "quote k @ t"] by (simp add: skip_ws_Cons is_ws_def quote_def)
    ultimately show "pmembers n (obj_text ind ((k, v) # ps) @ nl # ind0 @ CHR ''}'' # r) = Some ((k, v) # ps, r)"
      by (simp add: n skip_ws_Cons is_ws_def quote_def pstr_quote)
  qed
qed


lemma parse_json_jtext: "size v < n \<Longrightarrow> parse_json n (jtext [] v @ [nl]) = Some v"
  using pval_jtext_aux(1) [of "[]" v] by (simp add: parse_json_def is_indent_def no_digit_next_def
      is_digit_def nl_def skip_ws_def is_ws_def)

end
