(* ===== verification/Cli.thy ===== *)
theory Cli
  imports Loader JsonText
begin

text \<open>
  The main body of the command-line tool \<open>src/src/cli.ts\<close> (lines 8-29) as one transition
  of a state holding the files and the lines written to the console. The options are
  those \<open>yargs\<close> parsed (lines 8-11), keyed by name or alias; the dynamic import of
  line 24 is a parameter \<open>load\<close> from the resolved path to the module value, \<open>None\<close>
  when the import rejects. \<open>writable\<close> says of a path whether the file system lets
  \<open>writeJson\<close> open it for writing: it does not for a path in a missing directory
  (\<open>ENOENT\<close>), without permission (\<open>EACCES\<close>) or naming a directory (\<open>EISDIR\<close>),
  and \<open>writeJson\<close> then rejects before writing. Every failure rejects the promise of
  the async body before anything is written, which the model records as an \<open>Inl\<close>
  outcome with the state left as it was. A write that fails after the file was opened
  (\<open>ENOSPC\<close> after truncation) and the text written to \<open>stderr\<close> (the usage
  message of \<open>yargs\<close>, the report of the unhandled rejection) are not modelled.
\<close>

record cli_state =
  files :: "string \<rightharpoonup> string"
  console :: "string list"
  writable :: "string \<Rightarrow> bool"

datatype cli_fail = MissingArgument string | ImportFailed string | Rejected error | WriteFailed string

text \<open>An option given by its name or by its alias.\<close>

definition opt_value :: "(string \<rightharpoonup> string) \<Rightarrow> string \<Rightarrow> string \<Rightarrow> string option" where
  "opt_value given name alias = (case given name of Some v \<Rightarrow> Some v | None \<Rightarrow> given alias)"

text \<open>Lines 8-11: \<open>input\<close> (alias \<open>i\<close>) is demanded, \<open>output\<close> (alias \<open>o\<close>)
  defaults to \<open>flow.json\<close>.\<close>

definition output_path :: "(string \<rightharpoonup> string) \<Rightarrow> string" where
  "output_path given = (case opt_value given ''output'' ''o'' of None \<Rightarrow> ''flow.json'' | Some out \<Rightarrow> out)"

definition read_argv :: "(string \<rightharpoonup> string) \<Rightarrow> cli_fail + string \<times> string" where
  "read_argv given =
     (case opt_value given ''input'' ''i'' of
        None \<Rightarrow> Inl (MissingArgument ''input'')
      | Some inp \<Rightarrow> Inr (inp, output_path given))"

text \<open>\<open>path.resolve\<close> against the working directory (line 23); the normalisation of
  \<open>.\<close> and \<open>..\<close> segments is not modelled.\<close>

definition resolve_path :: "string \<Rightarrow> string \<Rightarrow> string" where
  "resolve_path cwd p = (if take 1 p = ''/'' then p else cwd @ ''/'' @ p)"

text \<open>The line of line 28: the check mark U+2705 in UTF-8, then the message.\<close>

definition generated_msg :: "string \<Rightarrow> string" where
  "generated_msg out = [CHR 0xE2, CHR 0x9C, CHR 0x85] @ '' JSON flow generated at '' @ out"

definition cli_main ::
  "(string \<Rightarrow> mval option) \<Rightarrow> string \<Rightarrow> (string \<rightharpoonup> string) \<Rightarrow> cli_state \<Rightarrow> (cli_fail + unit) \<times> cli_state" where
  "cli_main load cwd given st =
     (case read_argv given of
        Inl f \<Rightarrow> (Inl f, st)
      | Inr (inp, out) \<Rightarrow>
          (case load (resolve_path cwd inp) of
             None \<Rightarrow> (Inl (ImportFailed (resolve_path cwd inp)), st)
           | Some m \<Rightarrow>
               (case cli_output m of
                  Inl e \<Rightarrow> (Inl (Rejected e), st)
                | Inr j \<Rightarrow>
                    (case write_json_text j of
                       Inl e \<Rightarrow> (Inl (Rejected e), st)
                     | Inr t \<Rightarrow>
                         (if writable st out
                          then (Inr (), st\<lparr>files := (files st)(out \<mapsto> t),
                                          console := console st @ [generated_msg out]\<rparr>)
                          else (Inl (WriteFailed out), st))))))"

lemma cli_main_Inr:
  "cli_main load cwd given st = (Inr u, st') \<longleftrightarrow>
     (\<exists>inp out m j t. read_argv given = Inr (inp, out) \<and> load (resolve_path cwd inp) = Some m \<and>
        cli_output m = Inr j \<and> write_json_text j = Inr t \<and> writable st out \<and>
        st' = st\<lparr>files := (files st)(out \<mapsto> t), console := console st @ [generated_msg out]\<rparr>)"
  by (auto simp: cli_main_def split: sum.splits option.splits prod.splits)

text \<open>
  C20. Without an \<open>input\<close> option the tool stops with the usage error before it loads
  anything, and no file is written.
\<close>

theorem cli_missing_input:
  assumes "given ''input'' = None" and "given ''i'' = None"
  shows "cli_main load cwd given st = (Inl (MissingArgument ''input''), st)"
  using assms by (simp add: cli_main_def read_argv_def opt_value_def)

theorem cli_missing_input_witness:
  "cli_main (\<lambda>p. None) ''/w'' [''o'' \<mapsto> ''x.json''] \<lparr>files = Map.empty, console = [], writable = (\<lambda>p. True)\<rparr>
     = (Inl (MissingArgument ''input''), \<lparr>files = Map.empty, console = [], writable = (\<lambda>p. True)\<rparr>)"
  by (rule cli_missing_input) simp_all

text \<open>
  C21. A run that fails, for whatever reason, leaves the files and the console as they
  were: the tool writes only after everything else has succeeded.
\<close>

theorem cli_failure_writes_nothing:
  assumes "cli_main load cwd given st = (Inl f, st')"
  shows "st' = st"
  using assms by (auto simp: cli_main_def split: sum.splits option.splits prod.splits if_splits)

theorem cli_failure_writes_nothing_witness:
  "cli_main (\<lambda>p. None) ''/w'' [''i'' \<mapsto> ''f.ts''] \<lparr>files = Map.empty, console = [], writable = (\<lambda>p. True)\<rparr>
     = (Inl (ImportFailed ''/w/f.ts''), \<lparr>files = Map.empty, console = [], writable = (\<lambda>p. True)\<rparr>)"
proof -
  have e: "cli_main (\<lambda>p. None) ''/w'' [''i'' \<mapsto> ''f.ts''] \<lparr>files = Map.empty, console = [], writable = (\<lambda>p. True)\<rparr>
     = (Inl (ImportFailed ''/w/f.ts''), snd (cli_main (\<lambda>p. None) ''/w'' [''i'' \<mapsto> ''f.ts''] \<lparr>files = Map.empty, console = [], writable = (\<lambda>p. True)\<rparr>))"
    by (simp add: cli_main_def read_argv_def opt_value_def resolve_path_def)
  show ?thesis using cli_failure_writes_nothing [OF e] e by simp
qed


text \<open>
  C22. A successful run writes one file, at the \<open>output\<close> option or \<open>flow.json\<close>
  when it is absent, leaves every other file as it was, and prints one line naming
  that file.
\<close>

theorem cli_success_writes_output:
  assumes "cli_main load cwd given st = (Inr u, st')"
  shows "\<exists>t. files st' = (files st)(output_path given \<mapsto> t)
           \<and> console st' = console st @ [generated_msg (output_path given)]"
  using assms by (auto simp: cli_main_Inr read_argv_def split: option.splits)

theorem cli_success_writes_output_witness:
  "\<exists>u st'. cli_main (\<lambda>p. Some (MObj [(''x'', MData (JNum 1))])) ''/w'' [''input'' \<mapsto> ''f.ts'']
       \<lparr>files = Map.empty, console = [], writable = (\<lambda>p. True)\<rparr> = (Inr u, st')
     \<and> (\<exists>t. files st' = [''flow.json'' \<mapsto> t]
           \<and> console st' = [generated_msg ''flow.json''])"
proof -
  have "\<exists>u st'. cli_main (\<lambda>p. Some (MObj [(''x'', MData (JNum 1))])) ''/w'' [''input'' \<mapsto> ''f.ts'']
       \<lparr>files = Map.empty, console = [], writable = (\<lambda>p. True)\<rparr> = (Inr u, st')"
    by (simp add: cli_main_def read_argv_def opt_value_def loader_defs write_json_text_def)
  then obtain u st' where e: "cli_main (\<lambda>p. Some (MObj [(''x'', MData (JNum 1))])) ''/w''
      [''input'' \<mapsto> ''f.ts''] \<lparr>files = Map.empty, console = [], writable = (\<lambda>p. True)\<rparr> = (Inr u, st')"
    by blast
  have o: "output_path [''input'' \<mapsto> ''f.ts''] = ''flow.json''"
    by (simp add: output_path_def opt_value_def)
  show ?thesis using cli_success_writes_output [OF e] e o by auto
qed

text \<open>
  C23. When the module's default export is a function, the tool takes the function
  itself, \<open>JSON.stringify\<close> gives \<open>undefined\<close>, and \<open>writeJson\<close> raises a
  \<open>TypeError\<close>: the run fails and writes nothing.
\<close>

theorem cli_default_function_rejected:
  assumes "read_argv given = Inr (inp, out)"
    and "load (resolve_path cwd inp) = Some (MObj ((''default'', MFun r) # ps))"
  shows "cli_main load cwd given st = (Inl (Rejected (TypeError ''replace'')), st)"
  using assms by (simp add: cli_main_def loader_defs write_json_text_def)

theorem cli_default_function_rejected_witness:
  "cli_main (\<lambda>p. Some (MObj [(''default'', MFun (MData (JNum 1)))])) ''/w'' [''i'' \<mapsto> ''f.ts'']
     \<lparr>files = Map.empty, console = [], writable = (\<lambda>p. True)\<rparr>
   = (Inl (Rejected (TypeError ''replace'')), \<lparr>files = Map.empty, console = [], writable = (\<lambda>p. True)\<rparr>)"
proof (rule cli_default_function_rejected)
  show "read_argv [''i'' \<mapsto> ''f.ts''] = Inr (''f.ts'', ''flow.json'')"
    by (simp add: read_argv_def opt_value_def output_path_def)
qed simp


text \<open>
  C24. When the output path cannot be opened for writing (a missing directory, no
  permission, a directory), a run that got as far as the write fails with that write
  error and changes nothing: no file, no line on the console.
\<close>

theorem cli_unwritable_output:
  assumes "read_argv given = Inr (inp, out)" and "load (resolve_path cwd inp) = Some m"
    and "cli_output m = Inr (Some v)" and "\<not> writable st out"
  shows "cli_main load cwd given st = (Inl (WriteFailed out), st)"
  using assms by (simp add: cli_main_def write_json_text_def)

theorem cli_unwritable_output_witness:
  "cli_main (\<lambda>p. Some (MObj [(''x'', MData (JNum 1))])) ''/w'' [''i'' \<mapsto> ''f.ts'', ''o'' \<mapsto> ''no/dir/out.json'']
     \<lparr>files = Map.empty, console = [], writable = (\<lambda>p. p \<noteq> ''no/dir/out.json'')\<rparr>
   = (Inl (WriteFailed ''no/dir/out.json''),
      \<lparr>files = Map.empty, console = [], writable = (\<lambda>p. p \<noteq> ''no/dir/out.json'')\<rparr>)"
proof (rule cli_unwritable_output)
  show "read_argv [''i'' \<mapsto> ''f.ts'', ''o'' \<mapsto> ''no/dir/out.json''] = Inr (''f.ts'', ''no/dir/out.json'')"
    by (simp add: read_argv_def opt_value_def output_path_def)
  show "cli_output (MObj [(''x'', MData (JNum 1))]) = Inr (Some (JSObj [(''x'', JSNum 1)]))"
    by (simp add: loader_defs)
qed simp_all

end
