(* ===== verification/Types.thy ===== *)
theory Types
  imports Builder
begin

text \<open>
  The TypeScript types of \<open>src/src/index.ts\<close> (lines 1-17) as predicates on run-time
  values, and the parameter types the handle's methods declare (lines 24, 36, 40, 45, 139,
  144). TypeScript checks them only at compile time; \<open>has_type\<close> says when a value
  conforms. An optional property \<open>k?: T\<close> may be absent, \<open>undefined\<close>, or of type
  \<open>T\<close>; a record type constrains only the properties it lists.
\<close>

datatype ty = TAny | TString | TNumber | TBoolean | TArray ty | TDict ty
  | TRecord "(string \<times> ty \<times> bool) list"

fun has_type :: "jsval \<Rightarrow> ty \<Rightarrow> bool"
  and fields_ok :: "(string, jsval) obj \<Rightarrow> (string \<times> ty \<times> bool) list \<Rightarrow> bool" where
  "has_type v TAny = True"
| "has_type v TString = (case v of JStr _ \<Rightarrow> True | _ \<Rightarrow> False)"
| "has_type v TNumber = (case v of JNum _ \<Rightarrow> True | _ \<Rightarrow> False)"
| "has_type v TBoolean = (case v of JBool _ \<Rightarrow> True | _ \<Rightarrow> False)"
| "has_type v (TArray t) = (case v of JArr xs \<Rightarrow> (\<forall>x\<in>set xs. has_type x t) | _ \<Rightarrow> False)"
| "has_type v (TDict t) = (case v of JObj ps \<Rightarrow> (\<forall>p\<in>set ps. has_type (snd p) t) | _ \<Rightarrow> False)"
| "has_type v (TRecord fs) = (case v of JObj ps \<Rightarrow> fields_ok ps fs | _ \<Rightarrow> False)"
| "fields_ok ps [] = True"
| "fields_ok ps ((k, t, opt) # fs) =
     ((case map_of ps k of None \<Rightarrow> opt | Some x \<Rightarrow> (opt \<and> x = JUndef) \<or> has_type x t)
      \<and> fields_ok ps fs)"

text \<open>The key of the author's address as the source spells it, with U+2011 (in UTF-8).\<close>

definition email_key :: string where
  "email_key = ''e'' @ [CHR 0xE2, CHR 0x80, CHR 0x91] @ ''mail''"

definition ty_SequenceArgs :: ty where
  "ty_SequenceArgs = TDict TAny"

definition ty_RunDo :: ty where
  "ty_RunDo = TRecord [(''sequence'', TString, False), (''args'', ty_SequenceArgs, True)]"

definition ty_MenuOption :: ty where
  "ty_MenuOption = TRecord [(''code'', TString, False), (''similar'', TArray TString, True),
     (''do'', ty_RunDo, False)]"

definition ty_Node :: ty where
  "ty_Node = TRecord [(''id'', TString, False), (''sequence'', TArray TAny, False)]"

definition ty_Author :: ty where
  "ty_Author = TRecord [(''name'', TString, False), (email_key, TString, False)]"

definition ty_Script :: ty where
  "ty_Script = TRecord [(''id'', TString, False), (''author'', ty_Author, True),
     (''_comment'', TString, True), (''flow'', TArray ty_Node, False),
     (''hooks'', TArray TAny, False), (''exceptionally'', TAny, True)]"

text \<open>An argument of an optional parameter.\<close>

definition opt_typed :: "jsval \<Rightarrow> ty \<Rightarrow> bool" where
  "opt_typed v t \<longleftrightarrow> v = JUndef \<or> has_type v t"

text \<open>Arguments for a parameter list: a missing argument is allowed for an optional
  parameter only, and TypeScript refuses extra arguments.\<close>

fun args_typed :: "(ty \<times> bool) list \<Rightarrow> jsval list \<Rightarrow> bool" where
  "args_typed [] xs = (xs = [])"
| "args_typed ((t, opt) # ps) [] = (opt \<and> args_typed ps [])"
| "args_typed ((t, opt) # ps) (x # xs) =
     ((if opt then opt_typed x t else has_type x t) \<and> args_typed ps xs)"

definition sig_meta :: "(ty \<times> bool) list" where
  "sig_meta = [(ty_Author, False)]"

definition sig_comment :: "(ty \<times> bool) list" where
  "sig_comment = [(TString, False)]"

definition sig_onEvent :: "(ty \<times> bool) list" where
  "sig_onEvent = [(TString, False), (TString, False), (ty_SequenceArgs, True)]"

definition sig_onException :: "(ty \<times> bool) list" where
  "sig_onException = [(TString, False), (ty_SequenceArgs, True)]"

text \<open>A call of the handle that the declared signatures accept; \<open>node\<close> needs its
  callback and is a separate call of the program.\<close>

definition api_typed :: "string \<Rightarrow> jsval list \<Rightarrow> bool" where
  "api_typed m xs =
     (if m = ''build'' then xs = []
      else if m = ''meta'' then args_typed sig_meta xs
      else if m = ''comment'' then args_typed sig_comment xs
      else if m = ''onEvent'' then args_typed sig_onEvent xs
      else if m = ''onException'' then args_typed sig_onException xs
      else False)"

text \<open>An extension verb that respects \<open>node: Node\<close>: it leaves a string identifier a string.\<close>

fun verb_typed :: "verb \<Rightarrow> bool" where
  "verb_typed (Ext (EFun g)) =
     (\<forall>xs n bg n' bg' r. g xs n bg = Inr (n', bg', r) \<longrightarrow>
        has_type (node_id n) TString \<longrightarrow> has_type (node_id n') TString)"
| "verb_typed _ = True"

definition ext_typed :: "factory option \<Rightarrow> bool" where
  "ext_typed ext = (case ext of None \<Rightarrow> True | Some f \<Rightarrow> (\<forall>n. \<forall>p\<in>set (snd (f n)). verb_typed (Ext (snd p))))"

definition typed_state :: "bstate \<Rightarrow> bool" where
  "typed_state st \<longleftrightarrow> store_ok st \<and> has_type (script_js (doc st)) ty_Script
     \<and> (\<forall>c\<in>set (ctxs st). \<forall>p\<in>set (ctx_verbs c). verb_typed (snd p))"


subsection \<open>Typed programs build typed scripts\<close>

lemma has_type_script_js:
  "has_type (script_js s) ty_Script \<longleftrightarrow> has_type (script_id s) TString
     \<and> fields_ok (script_added s) [(''author'', ty_Author, True), (''_comment'', TString, True)]
     \<and> (\<forall>n\<in>set (script_flow s). has_type (node_id n) TString)"
  by (simp add: ty_Script_def script_js_def ty_Node_def node_js_def map_add_def)

lemma invoke_typed:
  assumes "invoke v xs n bg = Inr (n', bg', r)" "verb_typed v" "has_type (node_id n) TString"
  shows "has_type (node_id n') TString"
proof (cases v rule: verb_typed.cases)
  case (1 g)
  with assms have "g xs n bg = Inr (n', bg', r)" by simp
  with 1 assms(2,3) show ?thesis by (simp only: verb_typed.simps)
qed (use assms in \<open>auto simp: Let_def split: prod.splits\<close>)

lemma ctx_call_typed:
  assumes "ctx_call i c m xs n = Inr (n', c', r)" "\<forall>p\<in>set (ctx_verbs c). verb_typed (snd p)"
    and "has_type (node_id n) TString"
  shows "has_type (node_id n') TString"
proof -
  from assms(1) obtain v bg' x where "map_of (ctx_verbs c) m = Some v"
    and i: "invoke v xs n (ctx_bag c) = Inr (n', bg', x)"
    by (auto simp: ctx_call_def split: option.splits sum.splits prod.splits)
  then have "verb_typed v" using assms(2) by (auto dest!: map_of_SomeD)
  from invoke_typed [OF i this assms(3)] show ?thesis .
qed

lemma ctx_step_typed:
  assumes s: "ctx_step i m xs st = Inr (r, st')" and t: "typed_state st"
  shows "typed_state st'"
proof -
  from s obtain n' c' where c: "ctx_call i (ctxs st ! i) m xs (script_flow (doc st) ! i) = Inr (n', c', r)"
    and st': "st' = st\<lparr>doc := (doc st)\<lparr>script_flow := (script_flow (doc st))[i := n']\<rparr>,
                      ctxs := (ctxs st)[i := c']\<rparr>"
    by (auto simp: ctx_step_def dest: ctx_call_Inr split: sum.splits prod.splits)
  have verbs: "ctx_verbs c' = ctx_verbs (ctxs st ! i)" using ctx_call_Inr [OF c] by simp
  show ?thesis
  proof (cases "i < length (script_flow (doc st))")
    case True
    then have "ctxs st ! i \<in> set (ctxs st)"
      using t by (simp add: typed_state_def store_ok_def)
    then have vt: "\<forall>p\<in>set (ctx_verbs (ctxs st ! i)). verb_typed (snd p)"
      using t by (simp add: typed_state_def)
    have "has_type (node_id (script_flow (doc st) ! i)) TString"
      using True t by (simp add: typed_state_def has_type_script_js)
    with c vt have n': "has_type (node_id n') TString" by (rule ctx_call_typed)
    have "\<forall>n\<in>set ((script_flow (doc st))[i := n']). has_type (node_id n) TString"
      using t n' set_update_subset_insert [of "script_flow (doc st)" i n']
      by (auto simp: typed_state_def has_type_script_js)
    moreover have "\<forall>c\<in>set ((ctxs st)[i := c']). \<forall>p\<in>set (ctx_verbs c). verb_typed (snd p)"
    proof
      fix c assume "c \<in> set ((ctxs st)[i := c'])"
      then have "c = c' \<or> c \<in> set (ctxs st)"
        using set_update_subset_insert [of "ctxs st" i c'] by blast
      then show "\<forall>p\<in>set (ctx_verbs c). verb_typed (snd p)"
        using t vt verbs by (auto simp: typed_state_def)
    qed
    ultimately show ?thesis
      using t by (simp add: st' typed_state_def has_type_script_js store_ok_def)
  next
    case False
    then have "length (ctxs st) \<le> i" using t by (simp add: typed_state_def store_ok_def)
    with False have "st' = st" by (simp add: st' list_update_beyond not_less)
    with t show ?thesis by simp
  qed
qed

lemma args_typed_first: "args_typed ((t, False) # ps) xs \<Longrightarrow> has_type (arg xs 0) t"
  by (cases xs) simp_all

lemma typed_state_doc:
  assumes "script_id d = script_id (doc st)" "script_flow d = script_flow (doc st)"
    and "script_added d = script_added (doc st)"
  shows "typed_state (st\<lparr>doc := d\<rparr>) = typed_state st"
  using assms by (simp add: typed_state_def has_type_script_js store_ok_def)

lemma api_method_typed:
  assumes s: "api_method m xs st = Inr (r, st')" and a: "api_typed m xs" and t: "typed_state st"
  shows "typed_state st'"
proof -
  consider "m = ''build''" | "m = ''meta''" | "m = ''comment''" | "m = ''onEvent''"
    | "m = ''onException''"
    using a by (auto simp: api_typed_def split: if_splits)
  then show ?thesis
  proof cases
    case 1
    with s t show ?thesis by (simp add: api_method_def)
  next
    case 2
    with s have st': "st' = st\<lparr>doc := meta (arg xs 0) (doc st)\<rparr>" by (simp add: api_method_def)
    from 2 a have "args_typed [(ty_Author, False)] xs" by (simp add: api_typed_def sig_meta_def)
    then have "has_type (arg xs 0) ty_Author" by (rule args_typed_first)
    with t show ?thesis
      by (simp add: st' typed_state_def has_type_script_js store_ok_def meta_def map_of_assign)
  next
    case 3
    with s have st': "st' = st\<lparr>doc := comment (arg xs 0) (doc st)\<rparr>" by (simp add: api_method_def)
    from 3 a have "args_typed [(TString, False)] xs" by (simp add: api_typed_def sig_comment_def)
    then have "has_type (arg xs 0) TString" by (rule args_typed_first)
    with t show ?thesis
      by (simp add: st' typed_state_def has_type_script_js store_ok_def comment_def map_of_assign)
  next
    case 4
    with s t show ?thesis by (auto simp: api_method_def typed_state_doc onEvent_def)
  next
    case 5
    with s t show ?thesis by (auto simp: api_method_def typed_state_doc onException_def)
  qed
qed

lemma base_table_typed: "\<forall>p\<in>set base_table. verb_typed (snd p)"
  by (auto simp: base_table_def)

lemma make_ctx_typed:
  assumes "ext_typed ext"
  shows "\<forall>p\<in>set (ctx_verbs (make_ctx ext n)). verb_typed (snd p)"
proof (cases ext)
  case None
  then show ?thesis using base_table_typed by (simp add: make_ctx_def combined_actions_def)
next
  case (Some f)
  obtain bg t where f: "f n = (bg, t)" by (cases "f n")
  from assms have "\<forall>p\<in>set (snd (f n)). verb_typed (Ext (snd p))"
    by (simp add: ext_typed_def Some)
  then have "\<forall>p\<in>set (map (\<lambda>(k, e). (k, Ext e)) t). verb_typed (snd p)"
    by (auto simp: f)
  then show ?thesis
    using base_table_typed set_spread_sub [of base_table "map (\<lambda>(k, e). (k, Ext e)) t"]
    by (auto simp: make_ctx_def combined_actions_def Some f)
qed

lemma node_open_typed:
  assumes o: "node_open ext name st = (i, st')" and "has_type name TString" "ext_typed ext"
    and t: "typed_state st"
  shows "typed_state st'"
proof -
  let ?n = "\<lparr>node_id = name, sequence = []\<rparr>"
  have st': "st' = st\<lparr>doc := (doc st)\<lparr>script_flow := script_flow (doc st) @ [?n]\<rparr>,
                     ctxs := ctxs st @ [make_ctx ext ?n]\<rparr>"
    using o by (auto simp: node_open_def Let_def)
  have "\<forall>c\<in>set (ctxs st'). \<forall>p\<in>set (ctx_verbs c). verb_typed (snd p)"
    using t make_ctx_typed [OF assms(3), of ?n] by (auto simp: st' typed_state_def)
  with t assms(2) show ?thesis
    by (simp add: st' typed_state_def has_type_script_js store_ok_def)
qed

lemma flow_typed: "has_type sid TString \<Longrightarrow> typed_state (flow sid)"
  by (simp add: typed_state_def flow_def new_script_def has_type_script_js store_ok_def)

text \<open>
  C26. Type soundness of the builder: when the script identifier is a string, every
  call of the handle has the declared parameter types, every \<open>node\<close> name is a
  string, and the extension verbs keep node identifiers strings, the built script has
  the type \<open>Script\<close> of lines 10-17.
\<close>

theorem run_flow_script_typed:
  assumes "run_flow sid ext cs = Inr (r, st)" and "has_type sid TString" and "ext_typed ext"
    and "calls_ok api_typed (\<lambda>n. has_type n TString) cs"
  shows "has_type (script_js (doc st)) ty_Script"
proof -
  have "typed_state st"
  proof (rule exec_preserves_calls(3) [where A = api_typed and N = "\<lambda>n. has_type n TString"])
    show "exec_api ext [] RApi cs (flow sid) = Inr (r, st)"
      using assms(1) by (simp add: run_flow_def)
    show "typed_state (flow sid)" using assms(2) by (rule flow_typed)
  qed (use assms(3,4) in \<open>auto intro: ctx_step_typed api_method_typed node_open_typed\<close>)
  then show ?thesis by (simp add: typed_state_def)
qed

theorem run_flow_script_typed_witness:
  "\<exists>r st. run_flow (JStr ''s'') None
       [ACall ''meta'' [JObj [(''name'', JStr ''a''), (email_key, JStr ''a@x'')]],
        ANode (JStr ''n'') [CtxChain 0 [(''say'', [JStr ''hi''])]], ACall ''build'' []] = Inr (r, st)
     \<and> has_type (script_js (doc st)) ty_Script"
proof -
  have "\<exists>r st. run_flow (JStr ''s'') None
       [ACall ''meta'' [JObj [(''name'', JStr ''a''), (email_key, JStr ''a@x'')]],
        ANode (JStr ''n'') [CtxChain 0 [(''say'', [JStr ''hi''])]], ACall ''build'' []] = Inr (r, st)"
    by (simp add: run_simps)
  then obtain r st where e: "run_flow (JStr ''s'') None
       [ACall ''meta'' [JObj [(''name'', JStr ''a''), (email_key, JStr ''a@x'')]],
        ANode (JStr ''n'') [CtxChain 0 [(''say'', [JStr ''hi''])]], ACall ''build'' []] = Inr (r, st)"
    by blast
  have "has_type (script_js (doc st)) ty_Script"
  proof (rule run_flow_script_typed [OF e])
    show "calls_ok api_typed (\<lambda>n. has_type n TString)
       [ACall ''meta'' [JObj [(''name'', JStr ''a''), (email_key, JStr ''a@x'')]],
        ANode (JStr ''n'') [CtxChain 0 [(''say'', [JStr ''hi''])]], ACall ''build'' []]"
      by (simp add: api_typed_def sig_meta_def ty_Author_def email_key_def)
  qed (simp_all add: ext_typed_def)
  with e show ?thesis by blast
qed

text \<open>
  C27. The builder never checks the author it stores, and the handle is declared
  \<open>const api: any\<close> (line 32), so the compiler does not check it either: whatever a
  program did before, ending it with \<open>meta(v)\<close> for a defined \<open>v\<close> that is not an
  author record (\<open>flow("s").meta(42)\<close> compiles) builds a script that is not of
  type \<open>Script\<close>. The typing of \<open>meta\<close>'s argument in C26 is necessary.
\<close>

theorem untyped_meta_breaks_script_type:
  assumes "run_flow sid ext (cs @ [ACall ''meta'' [v]]) = Inr (r, st)"
    and "v \<noteq> JUndef" and "\<not> has_type v ty_Author"
  shows "\<not> has_type (script_js (doc st)) ty_Script"
proof -
  from assms(1) obtain r1 st1 where "run_flow sid ext cs = Inr (r1, st1)"
    and "exec_api ext [] r1 [ACall ''meta'' [v]] st1 = Inr (r, st)"
    by (auto simp: run_flow_def exec_api_append split: sum.splits)
  then have "st = st1\<lparr>doc := meta v (doc st1)\<rparr>"
    by (cases r1) (auto simp: api_method_def split: sum.splits)
  with assms(2,3) show ?thesis
    by (simp add: has_type_script_js meta_def map_of_assign)
qed

theorem untyped_meta_breaks_script_type_witness:
  "\<exists>r st. run_flow (JStr ''s'') None ([] @ [ACall ''meta'' [JNum 42]]) = Inr (r, st)
     \<and> \<not> has_type (script_js (doc st)) ty_Script"
proof -
  have "\<exists>r st. run_flow (JStr ''s'') None ([] @ [ACall ''meta'' [JNum 42]]) = Inr (r, st)"
    by (simp add: run_simps)
  then obtain r st where e: "run_flow (JStr ''s'') None ([] @ [ACall ''meta'' [JNum 42]]) = Inr (r, st)"
    by blast
  have "\<not> has_type (JNum 42) ty_Author" by (simp add: ty_Author_def)
  from untyped_meta_breaks_script_type [OF e _ this] e show ?thesis by auto
qed

end
