(* ===== verification/ScriptSpec.thy ===== *)
theory ScriptSpec
  imports Builder
begin

text \<open>
  What a run makes of the script apart from its nodes, stated over the handle calls the
  program makes in execution order (\<open>hcalls\<close>: a callback's calls come where its
  \<open>node\<close> call is, before the calls that follow it): the hooks are the \<open>onEvent\<close>
  calls in that order, \<open>exceptionally\<close> is made by the last \<open>onException\<close> call,
  and \<open>author\<close> and \<open>_comment\<close> hold the last value given, in the order of their
  first assignment.
\<close>

fun hcalls_stmts :: "stmt list \<Rightarrow> (string \<times> jsval list) list"
  and hcalls_stmt :: "stmt \<Rightarrow> (string \<times> jsval list) list"
  and hcalls :: "api_call list \<Rightarrow> (string \<times> jsval list) list"
  and hcall :: "api_call \<Rightarrow> (string \<times> jsval list) list" where
  "hcalls_stmts [] = []"
| "hcalls_stmts (s # ss) = hcalls_stmt s @ hcalls_stmts ss"
| "hcalls_stmt (CtxChain _ _) = []"
| "hcalls_stmt (ApiChain cs) = hcalls cs"
| "hcalls [] = []"
| "hcalls (c # cs) = hcall c @ hcalls cs"
| "hcall (ACall m xs) = [(m, xs)]"
| "hcall (ANode _ body) = hcalls_stmts body"

definition hook_record :: "jsval list \<Rightarrow> jsval" where
  "hook_record xs = JObj [(''event'', arg xs 0), (''args'', JObj [(''do'', run_do (arg xs 1) (arg xs 2))])]"

definition handler_record :: "jsval list \<Rightarrow> jsval" where
  "handler_record xs = JObj [(''action'', JStr ''run''), (''args'', JObj [(''do'', run_do (arg xs 0) (arg xs 1))])]"

definition spec_hooks :: "(string \<times> jsval list) list \<Rightarrow> jsval list" where
  "spec_hooks ops = map (hook_record \<circ> snd) (filter (\<lambda>(m, _). m = ''onEvent'') ops)"

definition spec_exceptionally :: "(string \<times> jsval list) list \<Rightarrow> jsval" where
  "spec_exceptionally ops =
     (case filter (\<lambda>(m, _). m = ''onException'') ops of [] \<Rightarrow> JUndef | hs \<Rightarrow> handler_record (snd (last hs)))"

definition meta_key :: "string \<Rightarrow> string" where
  "meta_key m = (if m = ''meta'' then ''author'' else ''_comment'')"

definition spec_added :: "(string \<times> jsval list) list \<Rightarrow> (string, jsval) obj" where
  "spec_added ops = spread [] (map (\<lambda>(m, xs). (meta_key m, arg xs 0))
                                  (filter (\<lambda>(m, _). m = ''meta'' \<or> m = ''comment'') ops))"

text \<open>The part of the script the handle's own methods write, and one method's effect on it.\<close>

definition dview :: "script \<Rightarrow> jsval list \<times> jsval \<times> (string, jsval) obj" where
  "dview s = (script_hooks s, script_exceptionally s, script_added s)"

fun vop :: "jsval list \<times> jsval \<times> (string, jsval) obj \<Rightarrow> string \<times> jsval list \<Rightarrow>
            jsval list \<times> jsval \<times> (string, jsval) obj" where
  "vop (h, e, a) (m, xs) =
     (if m = ''onEvent'' then (h @ [hook_record xs], e, a)
      else if m = ''onException'' then (h, handler_record xs, a)
      else if m = ''meta'' \<or> m = ''comment'' then (h, e, assign (meta_key m) (arg xs 0) a)
      else (h, e, a))"


subsection \<open>The handle's methods over a run\<close>

lemma api_method_dview:
  "api_method m xs st = Inr (r, st') \<Longrightarrow> dview (doc st') = vop (dview (doc st)) (m, xs)"
  by (auto simp: api_method_def dview_def script_op_defs hook_record_def handler_record_def
      meta_key_def split: if_splits)

lemma ctx_step_dview: "ctx_step i m xs st = Inr (r, st') \<Longrightarrow> dview (doc st') = dview (doc st)"
  by (auto simp: ctx_step_def dview_def split: sum.splits prod.splits)

lemma ctx_chain_dview: "ctx_chain r cs st = Inr (r', st') \<Longrightarrow> dview (doc st') = dview (doc st)"
  by (induction r cs st rule: ctx_chain.induct) (auto split: sum.splits dest: ctx_step_dview)

lemma node_open_dview: "node_open ext name st = (i, st') \<Longrightarrow> dview (doc st') = dview (doc st)"
  by (auto simp: node_open_def dview_def Let_def)

lemma exec_dview:
  "exec_stmts ext env ss st = Inr st' \<Longrightarrow> dview (doc st') = foldl vop (dview (doc st)) (hcalls_stmts ss)"
  "exec_stmt ext env s st = Inr st' \<Longrightarrow> dview (doc st') = foldl vop (dview (doc st)) (hcalls_stmt s)"
  "exec_api ext env r cs st = Inr (r', st') \<Longrightarrow> dview (doc st') = foldl vop (dview (doc st)) (hcalls cs)"
  "api_step ext env r c st = Inr (r', st') \<Longrightarrow> dview (doc st') = foldl vop (dview (doc st)) (hcall c)"
proof (induction ext env ss st and ext env s st and ext env r cs st and ext env r c st
    arbitrary: st' and st' and r' st' and r' st' rule: exec_induct)
  case (3 ext env k cs st)
  then show ?case by (auto split: if_splits sum.splits prod.splits dest: ctx_chain_dview)
next
  case (7 ext env m xs st)
  then show ?case by (simp add: api_method_dview)
next
  case (8 ext env name body st)
  then show ?case
    by (auto split: prod.splits sum.splits dest: node_open_dview)
qed (auto split: sum.splits prod.splits)

lemma foldl_vop:
  "foldl vop (h, e, a) ops =
     (h @ spec_hooks ops,
      (case filter (\<lambda>(m, _). m = ''onException'') ops of [] \<Rightarrow> e | hs \<Rightarrow> handler_record (snd (last hs))),
      spread a (map (\<lambda>(m, xs). (meta_key m, arg xs 0)) (filter (\<lambda>(m, _). m = ''meta'' \<or> m = ''comment'') ops)))"
proof (induction ops arbitrary: h e a)
  case (Cons op ops)
  obtain m xs where op: "op = (m, xs)" by (cases op)
  show ?case
    using Cons.IH [of _ _ _]
    by (auto simp: op spec_hooks_def split: list.splits)
qed (simp add: spec_hooks_def)

text \<open>
  C28. For every program and every extension, a successful run leaves the hooks equal
  to the \<open>onEvent\<close> calls in execution order, \<open>exceptionally\<close> made by the last
  \<open>onException\<close> call (\<open>undefined\<close> without one), and \<open>author\<close> and
  \<open>_comment\<close> holding the last value given, in the order of their first assignment.
\<close>

theorem run_flow_script_rest:
  assumes "run_flow sid ext cs = Inr (r, st)"
  shows "script_hooks (doc st) = spec_hooks (hcalls cs)
    \<and> script_exceptionally (doc st) = spec_exceptionally (hcalls cs)
    \<and> script_added (doc st) = spec_added (hcalls cs)"
proof -
  have "dview (doc st) = foldl vop (dview (doc (flow sid))) (hcalls cs)"
    using assms by (simp add: run_flow_def exec_dview(3))
  then show ?thesis
    by (simp add: foldl_vop dview_def flow_def new_script_def spec_exceptionally_def spec_added_def
        split: list.splits)
qed

theorem run_flow_script_rest_witness:
  "\<exists>r st. run_flow (JStr ''s'') None
       [ACall ''onEvent'' [JStr ''hangup'', JStr ''bye''],
        ANode (JStr ''n'') [ApiChain [ACall ''onException'' [JStr ''err''], ACall ''comment'' [JStr ''c'']]],
        ACall ''meta'' [JStr ''a'']] = Inr (r, st)
     \<and> script_hooks (doc st) = [hook_record [JStr ''hangup'', JStr ''bye'']]
     \<and> script_exceptionally (doc st) = handler_record [JStr ''err'']
     \<and> script_added (doc st) = [(''_comment'', JStr ''c''), (''author'', JStr ''a'')]"
proof -
  have "\<exists>r st. run_flow (JStr ''s'') None
       [ACall ''onEvent'' [JStr ''hangup'', JStr ''bye''],
        ANode (JStr ''n'') [ApiChain [ACall ''onException'' [JStr ''err''], ACall ''comment'' [JStr ''c'']]],
        ACall ''meta'' [JStr ''a'']] = Inr (r, st)"
    by (simp add: run_simps)
  then obtain r st where e: "run_flow (JStr ''s'') None
       [ACall ''onEvent'' [JStr ''hangup'', JStr ''bye''],
        ANode (JStr ''n'') [ApiChain [ACall ''onException'' [JStr ''err''], ACall ''comment'' [JStr ''c'']]],
        ACall ''meta'' [JStr ''a'']] = Inr (r, st)"
    by blast
  from run_flow_script_rest [OF e] e show ?thesis
    by (simp add: spec_hooks_def spec_exceptionally_def spec_added_def meta_key_def)
qed

end
