(* ===== verification/Spec2Isabelle.thy ===== *)
theory Spec2Isabelle
  imports Builder Cli Types ScriptSpec
begin

text \<open>
  \<^bold>\<open>flubber-flow: a verified model of the flow builder.\<close>

  The repository is a fluent builder (\<open>src/src/index.ts\<close>) that assembles a call-flow
  script (nodes holding ordered action records, hooks, an exception handler) and a
  command-line tool (\<open>src/src/cli.ts\<close>) that loads a user module and writes the built
  script as JSON. The builder's parts and how they interact: \<open>flow(id, extendActions)\<close>
  creates the script and a handle; \<open>node(name, fn)\<close> appends a node at once, builds a
  context for it (the built-in verbs merged with the verbs an optional extension factory
  returns, each wrapped so that it returns the context) and runs \<open>fn\<close> on the context;
  verbs push action records onto the node the context closed over; \<open>meta\<close>,
  \<open>comment\<close>, \<open>onEvent\<close>, \<open>onException\<close> and \<open>build\<close> act on the script.

  \<^bold>\<open>Theories.\<close>
  \<^item> \<open>Prelude\<close>: JavaScript objects as association lists in property order; property
    assignment (\<open>assign\<close>) and object spread (\<open>spread\<close>) with their lemmas
    (collection \<open>obj_simps\<close>).
  \<^item> \<open>JsValue\<close>: the values (\<open>jsval\<close>), truthiness, positional arguments (a missing
    one is \<open>undefined\<close>), default parameters, property reads, the exceptions, and
    \<open>JSON.stringify\<close> (\<open>to_json\<close>: \<open>undefined\<close> properties are dropped).
  \<^item> \<open>Document\<close>: records \<open>node\<close> and \<open>script\<close> (index.ts lines 9-17), the initial
    script (\<open>new_script\<close>, lines 25-30), \<open>meta\<close>, \<open>comment\<close>, \<open>onEvent\<close>,
    \<open>onException\<close> (lines 36-43, 139-147) and the run-time object \<open>script_js\<close>.
  \<^item> \<open>Verbs\<close>: one definition per built-in verb (\<open>answer\<close> ... \<open>hangup\<close>, lines
    51-121), giving the record it pushes; \<open>push\<close> is \<open>Array.prototype.push\<close>.
  \<^item> \<open>Context\<close>: the extension hook and the wrappers (lines 49, 123-133):
    \<open>combined_actions\<close> is \<open>{...baseActions, ...extendActions(node, ctx)}\<close>,
    \<open>make_ctx\<close> the context, \<open>ctx_call\<close> one call of a wrapper.
  \<^item> \<open>Builder\<close>: the handle's methods and \<open>node\<close> (lines 24-150) over an explicit
    store \<open>bstate\<close> (the script and one context per node, the context of node \<open>i\<close>
    mutating the \<open>i\<close>-th node), and authoring programs: chains of calls on the handle
    or on a callback's context, nested callbacks included, run by the mutually recursive
    \<open>exec_stmts\<close>/\<open>exec_api\<close>. Every call is dispatched on the value the previous call
    returned, so chaining is a theorem, not an assumption.
  \<^item> \<open>Loader\<close>: the selection of what the command-line tool writes (cli.ts lines
    23-27): module values (\<open>mval\<close>: functions, objects, data), property reads that
    raise on \<open>undefined\<close>, \<open>select_flow\<close> (line 25), \<open>written_value\<close> and
    \<open>JSON.stringify\<close> of module values (\<open>mjson\<close>, line 27), composed in
    \<open>cli_output\<close>; the builder handle as the loader sees it (\<open>api_mval\<close>).
  \<^item> \<open>JsonText\<close>: the text \<open>writeJson(path, v, {spaces: 2})\<close> writes (cli.ts line 27):
    \<open>JSON.stringify\<close> with a two-space gap (\<open>jtext\<close>, string escapes \<open>quote\<close>,
    integers \<open>int_text\<close>) and a final line feed, a \<open>TypeError\<close> for \<open>undefined\<close>
    (\<open>write_json_text\<close>); a reader of JSON text, outside the program, with fuel, and
    the lemma that the written text reads back as the value written.
  \<^item> \<open>Cli\<close>: the main body of cli.ts (lines 8-29) as one transition \<open>cli_main\<close> of a
    state of files and console lines: the options (\<open>read_argv\<close>, \<open>input\<close> demanded,
    \<open>output\<close> defaulting to \<open>flow.json\<close>), \<open>path.resolve\<close>, the import as a
    parameter \<open>load\<close>, the selection of the \<open>Loader\<close> theory, the write (which fails
    when the file system does not let the output path be opened, \<open>writable\<close>) and
    the log line.
  \<^item> \<open>Types\<close>: the TypeScript declarations (index.ts lines 1-22) as predicates on
    run-time values (\<open>has_type\<close>, \<open>ty_Script\<close>, \<open>ty_Node\<close>, ...), the declared
    parameter types of the handle's methods (\<open>sig_meta\<close>, ..., \<open>api_typed\<close>), and the
    invariant \<open>typed_state\<close>, which every step of a program with typed calls keeps
    (by \<open>exec_preserves_calls\<close> of \<open>Builder\<close>).
  \<^item> \<open>ScriptSpec\<close>: what a run makes of the rest of the script, over the handle calls
    in execution order (\<open>hcalls\<close>): hooks, \<open>exceptionally\<close>, \<open>author\<close> and
    \<open>_comment\<close> (\<open>spec_hooks\<close>, \<open>spec_exceptionally\<close>, \<open>spec_added\<close>).
  \<^item> this theory: an abstract specification of what a program builds
    (\<open>spec_calls\<close>: the nodes of the program's \<open>node\<close> calls in pre-order, each with the
    records of the verb calls made on its own context, in call order) and the proof that
    the imperative builder implements it; the end-to-end example of the spec; the shape
    invariant of the actions.

  \<^bold>\<open>Properties.\<close> Refinement of the abstract specification by the builder (C1);
  one node per \<open>node\<close> call (C2); chainability of every verb, built-in or extended (C3);
  override of built-ins by extension verbs (C4); the record shapes and the optional-property
  rules of each verb (C5, C6, C9-C12, C16); the shape invariant of all actions (C7); the
  identifier never changes (C8); last call wins for \<open>onException\<close>, \<open>meta\<close>,
  \<open>comment\<close> (C13, C14); contexts of different nodes are independent (C15). Of the
  command-line tool: a default-exported handle makes it write the built script (C17); a
  default-exported built document is written wrapped as \<open>{"default": ...}\<close> (C18); a
  module with no usable export is written as it is, without an error (C19); a missing
  \<open>input\<close> option is a usage error (C20); a failing run writes nothing (C21); a
  successful run writes one file, at the output option or \<open>flow.json\<close> (C22); a
  default-exported function is never called and makes the run fail with a \<open>TypeError\<close>
  in \<open>writeJson\<close> (C23); an output path that cannot be opened makes the run fail
  without a change (C24); end to end, the file written for a built flow reads back as the
  JSON of the built script (C25). Programs whose calls have the declared types build a
  script of type \<open>Script\<close> (C26); since neither the builder nor, with the handle
  declared \<open>any\<close>, the compiler checks the author, ending any program with
  \<open>meta(v)\<close> for a defined non-author \<open>v\<close> builds an ill-typed script (C27). For
  every program and extension the hooks, \<open>exceptionally\<close>, \<open>author\<close> and
  \<open>_comment\<close> are those of the abstract specification (C28); with C1, which gives the
  nodes of the programs it covers, the whole script such a program builds is specified. The
  only fuel is the JSON reader's: a value of size \<open>k\<close> needs \<open>k + 1\<close> units (one
  per value, array element and object member), which \<open>pval_jtext_aux\<close> proves enough.
  No other bound or fuel is needed: every function of the model is total, the interpreter
  by structural recursion on the program.

  \<^bold>\<open>Not modelled.\<close> The tokenisation of the command line by \<open>yargs\<close> (the
  model starts from the options it parsed; an option given twice is not covered); the
  \<open>ts-node\<close> registration and the dynamic import, which are the parameter \<open>load\<close>;
  the normalisation of \<open>.\<close> and \<open>..\<close> in \<open>path.resolve\<close>; a write that fails
  after the output file was opened (\<open>ENOSPC\<close>); what is written to \<open>stderr\<close>;
  JavaScript strings as UTF-16 (a string is a list of 8-bit characters); the members the
  context and the handle inherit from \<open>Object.prototype\<close> (\<open>it.toString()\<close> returns
  a string in JavaScript and raises \<open>TypeError\<close> in the model); function values stored
  in the context by an extension factory; extension factories that throw, mutate the node
  or keep state shared between nodes (a factory is a function of the fresh node; extension
  verbs may throw); callbacks that recurse or keep a context after they return (programs
  are finite trees); JavaScript numbers beyond integers (\<open>NaN\<close> is falsy in JavaScript
  and has no counterpart here).
\<close>

definition plain :: "bstate \<Rightarrow> bool" where
  "plain st \<longleftrightarrow> store_ok st \<and> set (ctxs st) \<subseteq> {base_ctx}"

definition add_acts :: "node \<Rightarrow> jsval list \<Rightarrow> node" where
  "add_acts n as = n\<lparr>sequence := sequence n @ as\<rparr>"

definition verb_ok :: "string \<times> jsval list \<Rightarrow> bool" where
  "verb_ok c \<longleftrightarrow> fst c \<in> set (keys base_verbs)"

definition verb_action :: "string \<times> jsval list \<Rightarrow> jsval" where
  "verb_action c = base_action (the (map_of base_verbs (fst c))) (snd c)"

text \<open>
  The programs of the specification: verbs are built-in ones called on the callback's own
  context, and the handle is only used for \<open>node\<close>, \<open>meta\<close>, \<open>comment\<close>,
  \<open>onEvent\<close> and \<open>onException\<close>.
\<close>

fun simple_stmts :: "stmt list \<Rightarrow> bool"
  and simple_stmt :: "stmt \<Rightarrow> bool"
  and simple_calls :: "api_call list \<Rightarrow> bool"
  and simple_call :: "api_call \<Rightarrow> bool" where
  "simple_stmts [] = True"
| "simple_stmts (s # ss) = (simple_stmt s \<and> simple_stmts ss)"
| "simple_stmt (CtxChain k cs) = (k = 0 \<and> list_all verb_ok cs)"
| "simple_stmt (ApiChain cs) = simple_calls cs"
| "simple_calls [] = True"
| "simple_calls (c # cs) = (simple_call c \<and> simple_calls cs)"
| "simple_call (ACall m _) = (m \<in> {''meta'', ''comment'', ''onEvent'', ''onException''})"
| "simple_call (ANode _ body) = simple_stmts body"

text \<open>
  The abstract specification: a statement list gives the actions of the enclosing node and
  the nodes it creates; a \<open>node\<close> call gives its node, then the nodes its callback
  creates.
\<close>

fun spec_stmts :: "stmt list \<Rightarrow> jsval list \<times> node list"
  and spec_stmt :: "stmt \<Rightarrow> jsval list \<times> node list"
  and spec_calls :: "api_call list \<Rightarrow> node list"
  and spec_call :: "api_call \<Rightarrow> node list" where
  "spec_stmts [] = ([], [])"
| "spec_stmts (s # ss) =
     (let (a1, n1) = spec_stmt s; (a2, n2) = spec_stmts ss in (a1 @ a2, n1 @ n2))"
| "spec_stmt (CtxChain _ cs) = (map verb_action cs, [])"
| "spec_stmt (ApiChain cs) = ([], spec_calls cs)"
| "spec_calls [] = []"
| "spec_calls (c # cs) = spec_call c @ spec_calls cs"
| "spec_call (ACall _ _) = []"
| "spec_call (ANode name body) =
     \<lparr>node_id = name, sequence = fst (spec_stmts body)\<rparr> # snd (spec_stmts body)"

definition actions_shaped :: "bstate \<Rightarrow> bool" where
  "actions_shaped st \<longleftrightarrow> (\<forall>n \<in> set (script_flow (doc st)). \<forall>a \<in> set (sequence n). action_shaped a)"

section \<open>Refinement\<close>

lemma add_acts_Nil [simp]: "add_acts n [] = n"
  by (simp add: add_acts_def)

lemma add_acts_append [simp]: "add_acts (add_acts n as) bs = add_acts n (as @ bs)"
  by (simp add: add_acts_def)

lemma plain_update_flow [simp]:
  "plain (st\<lparr>doc := (doc st)\<lparr>script_flow := (script_flow (doc st))[i := n]\<rparr>\<rparr>) = plain st"
  by (simp add: plain_def store_ok_def)

lemma plain_flow [simp]: "plain (flow sid)"
  by (simp add: plain_def flow_def new_script_def store_ok_def)

lemma plain_ctx:
  assumes "plain st" "i < length (script_flow (doc st))"
  shows "ctxs st ! i = base_ctx"
proof -
  have "ctxs st ! i \<in> set (ctxs st)"
    using assms by (simp add: plain_def store_ok_def)
  then show ?thesis using assms(1) by (auto simp: plain_def)
qed

lemma ctx_step_base:
  assumes "plain st" "i < length (script_flow (doc st))" "verb_ok (m, xs)"
  shows "ctx_step i m xs st = Inr (RCtx i, st\<lparr>doc := (doc st)\<lparr>script_flow :=
     (script_flow (doc st))[i := add_acts (script_flow (doc st) ! i) [verb_action (m, xs)]]\<rparr>\<rparr>)"
proof -
  have c: "ctxs st ! i = base_ctx"
    using assms(1,2) by (rule plain_ctx)
  obtain b where b: "map_of base_verbs m = Some b"
    using assms(3) by (auto simp: verb_ok_def dest: weak_map_of_SomeI)
  have "(ctxs st)[i := base_ctx] = ctxs st"
    using list_update_id [of "ctxs st" i] c by simp
  then show ?thesis
    by (simp add: ctx_step_def ctx_call_def c base_ctx_def map_of_base_table b
        verb_action_def add_acts_def)
qed

lemma ctx_chain_base:
  assumes "plain st" "i < length (script_flow (doc st))" "list_all verb_ok cs"
  shows "\<exists>st'. ctx_chain (RCtx i) cs st = Inr (RCtx i, st') \<and> plain st'
    \<and> script_flow (doc st') =
        (script_flow (doc st))[i := add_acts (script_flow (doc st) ! i) (map verb_action cs)]"
  using assms
proof (induction cs arbitrary: st)
  case Nil
  then show ?case by simp
next
  case (Cons c cs)
  obtain m xs where c: "c = (m, xs)" by (cases c)
  let ?st1 = "st\<lparr>doc := (doc st)\<lparr>script_flow :=
     (script_flow (doc st))[i := add_acts (script_flow (doc st) ! i) [verb_action (m, xs)]]\<rparr>\<rparr>"
  have step: "ctx_step i m xs st = Inr (RCtx i, ?st1)"
    using Cons.prems by (intro ctx_step_base) (simp_all add: c)
  have "\<exists>st'. ctx_chain (RCtx i) cs ?st1 = Inr (RCtx i, st') \<and> plain st'
    \<and> script_flow (doc st') =
        (script_flow (doc ?st1))[i := add_acts (script_flow (doc ?st1) ! i) (map verb_action cs)]"
    using Cons.prems by (intro Cons.IH) (simp_all add: c)
  then show ?case
    using Cons.prems(2) by (simp add: c step)
qed

text \<open>
  The simulation, by induction along the interpreter: a statement list run in the callback
  of node \<open>i\<close> appends its actions to node \<open>i\<close> (which may meanwhile have stopped
  being the last node) and its nodes at the end; a chain on the handle appends its nodes.
\<close>

lemma exec_refines:
  "ext = None \<Longrightarrow> simple_stmts ss \<Longrightarrow> plain st \<Longrightarrow> env \<noteq> [] \<Longrightarrow>
   hd env < length (script_flow (doc st)) \<Longrightarrow>
   \<exists>st'. exec_stmts ext env ss st = Inr st' \<and> plain st' \<and> script_flow (doc st') =
     (script_flow (doc st))[hd env := add_acts (script_flow (doc st) ! hd env) (fst (spec_stmts ss))]
     @ snd (spec_stmts ss)"
  "ext = None \<Longrightarrow> simple_stmt s \<Longrightarrow> plain st \<Longrightarrow> env \<noteq> [] \<Longrightarrow>
   hd env < length (script_flow (doc st)) \<Longrightarrow>
   \<exists>st'. exec_stmt ext env s st = Inr st' \<and> plain st' \<and> script_flow (doc st') =
     (script_flow (doc st))[hd env := add_acts (script_flow (doc st) ! hd env) (fst (spec_stmt s))]
     @ snd (spec_stmt s)"
  "ext = None \<Longrightarrow> simple_calls cs \<Longrightarrow> plain st \<Longrightarrow> r = RApi \<Longrightarrow>
   \<exists>st'. exec_api ext env r cs st = Inr (RApi, st') \<and> plain st' \<and>
     script_flow (doc st') = script_flow (doc st) @ spec_calls cs"
  "ext = None \<Longrightarrow> simple_call c \<Longrightarrow> plain st \<Longrightarrow> r = RApi \<Longrightarrow>
   \<exists>st'. api_step ext env r c st = Inr (RApi, st') \<and> plain st' \<and>
     script_flow (doc st') = script_flow (doc st) @ spec_call c"
proof (induction ext env ss st and ext env s st and ext env r cs st and ext env r c st
    rule: exec_induct)
  case (2 ext env s ss st)
  let ?i = "hd env" and ?F = "script_flow (doc st)"
  obtain a1 n1 a2 n2 where sp: "spec_stmt s = (a1, n1)" "spec_stmts ss = (a2, n2)"
    by fastforce
  from "2.IH"(1) "2.prems" obtain st1 where e1: "exec_stmt ext env s st = Inr st1"
    and p1: "plain st1" and f1: "script_flow (doc st1) = ?F[?i := add_acts (?F ! ?i) a1] @ n1"
    by (auto simp: sp)
  have i1: "?i < length (script_flow (doc st1))"
    using f1 "2.prems"(5) by simp
  from "2.IH"(2) [OF e1] "2.prems" p1 i1 obtain st2 where e2: "exec_stmts ext env ss st1 = Inr st2"
    and p2: "plain st2"
    and f2: "script_flow (doc st2) =
      (script_flow (doc st1))[?i := add_acts (script_flow (doc st1) ! ?i) a2] @ n2"
    by (auto simp: sp)
  have "script_flow (doc st2) = ?F[?i := add_acts (?F ! ?i) (a1 @ a2)] @ (n1 @ n2)"
    using f1 f2 "2.prems"(5) by (simp add: list_update_append nth_append)
  with e1 e2 p2 show ?case by (simp add: sp)
next
  case (3 ext env k cs st)
  then have k: "k = 0" and ok: "list_all verb_ok cs" by simp_all
  from "3.prems" have "env ! k = hd env" "k < length env"
    by (simp_all add: k hd_conv_nth)
  with ctx_chain_base [OF "3.prems"(3) "3.prems"(5) ok] show ?case
    by (auto simp: k)
next
  case (4 ext env cs st)
  from "4.IH" "4.prems" obtain st' where "exec_api ext env RApi cs st = Inr (RApi, st')"
    "plain st'" "script_flow (doc st') = script_flow (doc st) @ spec_calls cs"
    by auto
  then show ?case using "4.prems"(5) by simp
next
  case (6 ext env r c cs st)
  from "6.IH"(1) "6.prems" obtain st1 where e1: "api_step ext env r c st = Inr (RApi, st1)"
    and p1: "plain st1" and f1: "script_flow (doc st1) = script_flow (doc st) @ spec_call c"
    by auto
  from "6.IH"(2) [OF e1] "6.prems" p1 obtain st2
    where "exec_api ext env RApi cs st1 = Inr (RApi, st2)"
      "plain st2" "script_flow (doc st2) = script_flow (doc st1) @ spec_calls cs"
    by auto
  with e1 f1 "6.prems"(4) show ?case by simp
next
  case (7 ext env m xs st)
  then show ?case
    by (auto simp: api_method_def plain_def store_ok_def script_op_defs)
next
  case (8 ext env name body st)
  let ?n = "\<lparr>node_id = name, sequence = []\<rparr>" and ?F = "script_flow (doc st)"
  obtain i st1 where o: "node_open ext name st = (i, st1)" by fastforce
  from node_open_frame [OF o] "8.prems"(1) have i: "i = length ?F"
    and f1: "script_flow (doc st1) = ?F @ [?n]" and c1: "ctxs st1 = ctxs st @ [base_ctx]"
    by simp_all
  have p1: "plain st1" using "8.prems"(3) f1 c1 by (auto simp: plain_def store_ok_def)
  from "8.IH" [OF o[symmetric] refl] "8.prems" p1 f1 i obtain st2
    where e2: "exec_stmts ext (i # env) body st1 = Inr st2" and p2: "plain st2"
    and f2: "script_flow (doc st2) =
      (?F @ [?n])[i := add_acts ((?F @ [?n]) ! i) (fst (spec_stmts body))] @ snd (spec_stmts body)"
    by auto
  have "script_flow (doc st2) = ?F @ spec_call (ANode name body)"
    using f2 i by (simp add: add_acts_def)
  with o e2 p2 show ?case by simp
qed simp_all

section \<open>Properties that span the components\<close>

text \<open>
  C1. The builder implements the abstract specification: for every program whose verbs are
  built-in ones called on their own node's context, \<open>flow(id).c1(..)...build()\<close>
  succeeds, and the script's node list is the specification's: one node per \<open>node\<close>
  call in the order the calls are made (an outer node before the nodes its callback
  creates), each holding the records of the verbs called on its context in call order,
  including calls made after a nested \<open>node\<close> call returned.
\<close>

theorem flow_refines_spec:
  assumes "simple_calls cs"
  shows "\<exists>st. run_flow sid None (cs @ [ACall ''build'' []]) = Inr (RScript, st)
           \<and> script_flow (doc st) = spec_calls cs"
proof -
  from exec_refines(3) [OF refl assms plain_flow refl] obtain st
    where "exec_api None [] RApi cs (flow sid) = Inr (RApi, st)"
      and "script_flow (doc st) = script_flow (doc (flow sid)) @ spec_calls cs"
    by blast
  then show ?thesis
    by (simp add: run_flow_def exec_api_append api_method_def flow_def new_script_def)
qed

theorem flow_refines_spec_witness:
  "\<exists>st. run_flow (JStr ''s'') None
     ([ANode (JStr ''a'') [CtxChain 0 [(''say'', [JStr ''x''])],
        ApiChain [ANode (JStr ''b'') [CtxChain 0 [(''exit'', [])]]],
        CtxChain 0 [(''hangup'', [JStr ''r''])]],
       ACall ''onEvent'' [JStr ''e'', JStr ''q'']] @ [ACall ''build'' []]) = Inr (RScript, st)
   \<and> script_flow (doc st) =
       [\<lparr>node_id = JStr ''a'', sequence = [say [JStr ''x''], hangup [JStr ''r'']]\<rparr>,
        \<lparr>node_id = JStr ''b'', sequence = [exit []]\<rparr>]"
proof -
  have "simple_calls [ANode (JStr ''a'') [CtxChain 0 [(''say'', [JStr ''x''])],
        ApiChain [ANode (JStr ''b'') [CtxChain 0 [(''exit'', [])]]],
        CtxChain 0 [(''hangup'', [JStr ''r''])]],
       ACall ''onEvent'' [JStr ''e'', JStr ''q'']]"
    by (simp add: verb_ok_def base_verbs_def)
  from flow_refines_spec [OF this, of "JStr ''s''"] show ?thesis
    by (simp add: verb_action_def base_verbs_def)
qed

lemma base_action_shaped: "action_shaped (base_action b xs)"
  by (cases b) (simp_all add: action_shaped_def verb_defs)

lemma ctx_step_shaped:
  assumes step: "ctx_step i m xs st = Inr (r, st')" and pl: "plain st" and sh: "actions_shaped st"
  shows "plain st' \<and> actions_shaped st'"
proof (cases "i < length (script_flow (doc st))")
  case False
  then have "length (ctxs st) \<le> i" using pl by (simp add: plain_def store_ok_def)
  with False step have "script_flow (doc st') = script_flow (doc st) \<and> ctxs st' = ctxs st"
    by (auto simp: ctx_step_def list_update_beyond not_less split: sum.splits prod.splits)
  with pl sh show ?thesis by (simp add: plain_def store_ok_def actions_shaped_def)
next
  case True
  let ?F = "script_flow (doc st)"
  have c: "ctxs st ! i = base_ctx" using pl True by (rule plain_ctx)
  from step c obtain b where
    st': "st' = st\<lparr>doc := (doc st)\<lparr>script_flow := ?F[i := add_acts (?F ! i) [base_action b xs]]\<rparr>,
                   ctxs := (ctxs st)[i := base_ctx]\<rparr>"
    by (auto simp: ctx_step_def ctx_call_def base_ctx_def map_of_base_table add_acts_def
        split: option.splits)
  have "plain st'"
    using pl set_update_subset_insert [of "ctxs st" i base_ctx]
    by (auto simp: st' plain_def store_ok_def)
  moreover have "action_shaped a"
    if n: "n \<in> set (?F[i := add_acts (?F ! i) [base_action b xs]])" and a: "a \<in> set (sequence n)"
    for n a
  proof -
    from n set_update_subset_insert [of ?F i] have "n = add_acts (?F ! i) [base_action b xs] \<or> n \<in> set ?F"
      by blast
    moreover have "?F ! i \<in> set ?F" using True by simp
    ultimately show ?thesis
      using a sh by (auto simp: add_acts_def actions_shaped_def base_action_shaped)
  qed
  ultimately show ?thesis by (simp add: st' actions_shaped_def)
qed

text \<open>
  C7. Without an extension, every entry of every node's sequence is an action record,
  tagged \<open>action\<close> or \<open>decision\<close>: the built-in verbs push nothing else, whatever
  their arguments and however the calls are nested.
\<close>

theorem run_flow_actions_shaped:
  assumes "run_flow sid None cs = Inr (r, st)"
  shows "actions_shaped st"
proof -
  have "plain st \<and> actions_shaped st"
  proof (rule exec_preserves(3) [where P = "\<lambda>st. plain st \<and> actions_shaped st"])
    show "exec_api None [] RApi cs (flow sid) = Inr (r, st)"
      using assms by (simp add: run_flow_def)
    show "plain (flow sid) \<and> actions_shaped (flow sid)"
      using plain_flow [of sid] by (simp add: actions_shaped_def flow_def new_script_def)
  next
    fix i m xs st r st'
    assume "ctx_step i m xs st = Inr (r, st')" "plain st \<and> actions_shaped st"
    then show "plain st' \<and> actions_shaped st'" by (blast dest: ctx_step_shaped)
  next
    fix m xs st r st'
    assume "api_method m xs st = Inr (r, st')" "plain st \<and> actions_shaped st"
    then show "plain st' \<and> actions_shaped st'"
      by (auto dest!: api_method_frame simp: plain_def store_ok_def actions_shaped_def)
  next
    fix name st i st'
    assume "node_open None name st = (i, st')" "plain st \<and> actions_shaped st"
    then show "plain st' \<and> actions_shaped st'"
      by (auto dest!: node_open_frame simp: plain_def store_ok_def actions_shaped_def)
  qed
  then show ?thesis ..
qed

theorem run_flow_actions_shaped_witness:
  "\<exists>r st. run_flow (JStr ''s'') None
     [ANode (JStr ''a'') [CtxChain 0 [(''decision'', [JStr ''x>1'', JStr ''hi'']), (''bogus'', [])]]]
     = Inl (TypeError ''bogus'')
   \<and> run_flow (JStr ''s'') None
     [ANode (JStr ''a'') [CtxChain 0 [(''decision'', [JStr ''x>1'', JStr ''hi'']), (''exit'', [])]]]
     = Inr (r, st)
   \<and> actions_shaped st"
proof -
  have "run_flow (JStr ''s'') None
     [ANode (JStr ''a'') [CtxChain 0 [(''decision'', [JStr ''x>1'', JStr ''hi'']), (''bogus'', [])]]]
     = Inl (TypeError ''bogus'')"
    by (simp add: run_simps)
  moreover have "\<exists>r st. run_flow (JStr ''s'') None
     [ANode (JStr ''a'') [CtxChain 0 [(''decision'', [JStr ''x>1'', JStr ''hi'']), (''exit'', [])]]]
     = Inr (r, st)"
    by (simp add: run_simps)
  then obtain r st where e: "run_flow (JStr ''s'') None
     [ANode (JStr ''a'') [CtxChain 0 [(''decision'', [JStr ''x>1'', JStr ''hi'']), (''exit'', [])]]]
     = Inr (r, st)"
    by blast
  ultimately show ?thesis using run_flow_actions_shaped [OF e] by blast
qed


subsection \<open>From the authoring program to the written file\<close>

lemma cli_output_api_mval:
  assumes "run_flow sid ext cs = Inr (r, st)"
  shows "cli_output (MObj [(''default'', api_mval st)]) = Inr (to_json (script_js (doc st)))"
proof -
  have "get (script_js (doc st)) ''build'' = JUndef"
    using run_flow_added_ok [OF assms] by (rule get_script_js_build)
  then show ?thesis by (simp add: loader_defs script_js_def)
qed

text \<open>
  C25. End to end: when the module's default export is the handle of a flow an authoring
  program built and the output path can be opened for writing, the tool succeeds and the
  file it writes at the output path reads back as the JSON of the built script.
\<close>

theorem cli_file_reads_back_script:
  assumes "run_flow sid ext cs = Inr (r, st)"
    and "read_argv given = Inr (inp, out)"
    and "load (resolve_path cwd inp) = Some (MObj [(''default'', api_mval st)])"
    and "to_json (script_js (doc st)) = Some v" and "size v < n" and "writable fs out"
  shows "\<exists>st'. cli_main load cwd given fs = (Inr (), st')
           \<and> (\<exists>t. files st' out = Some t \<and> parse_json n t = Some v)"
  using assms(2,3,4,6) cli_output_api_mval [OF assms(1)] parse_json_jtext [OF assms(5)]
  by (simp add: cli_main_def write_json_text_def)

theorem cli_file_reads_back_script_witness:
  "\<exists>r st. run_flow (JStr ''s1'') None [ANode (JStr ''n1'') [CtxChain 0 [(''exit'', [])]]] = Inr (r, st)
     \<and> (\<exists>st'. cli_main (\<lambda>p. Some (MObj [(''default'', api_mval st)])) ''/w'' [''i'' \<mapsto> ''f.ts'']
               \<lparr>files = Map.empty, console = [], writable = (\<lambda>p. True)\<rparr> = (Inr (), st')
          \<and> (\<exists>t. files st' ''flow.json'' = Some t \<and> parse_json 30 t =
               Some (JSObj [(''id'', JSStr ''s1''),
                 (''flow'', JSArr [JSObj [(''id'', JSStr ''n1''),
                    (''sequence'', JSArr [JSObj [(''action'', JSStr ''exit'')]])]]),
                 (''hooks'', JSArr [])])))"
proof -
  have "\<exists>r st. run_flow (JStr ''s1'') None [ANode (JStr ''n1'') [CtxChain 0 [(''exit'', [])]]]
    = Inr (r, st)"
    by (simp add: run_simps)
  then obtain r st where e: "run_flow (JStr ''s1'') None [ANode (JStr ''n1'') [CtxChain 0 [(''exit'', [])]]]
    = Inr (r, st)"
    by blast
  have j: "to_json (script_js (doc st)) = Some (JSObj [(''id'', JSStr ''s1''),
                 (''flow'', JSArr [JSObj [(''id'', JSStr ''n1''),
                    (''sequence'', JSArr [JSObj [(''action'', JSStr ''exit'')]])]]),
                 (''hooks'', JSArr [])])"
    using e [symmetric] by (simp add: run_simps script_js_def node_js_def)
  have a: "read_argv [''i'' \<mapsto> ''f.ts''] = Inr (''f.ts'', ''flow.json'')"
    by (simp add: read_argv_def opt_value_def output_path_def)
  have "\<exists>st'. cli_main (\<lambda>p. Some (MObj [(''default'', api_mval st)])) ''/w'' [''i'' \<mapsto> ''f.ts'']
               \<lparr>files = Map.empty, console = [], writable = (\<lambda>p. True)\<rparr> = (Inr (), st')
          \<and> (\<exists>t. files st' ''flow.json'' = Some t \<and> parse_json 30 t =
               Some (JSObj [(''id'', JSStr ''s1''),
                 (''flow'', JSArr [JSObj [(''id'', JSStr ''n1''),
                    (''sequence'', JSArr [JSObj [(''action'', JSStr ''exit'')]])]]),
                 (''hooks'', JSArr [])]))"
    by (rule cli_file_reads_back_script [OF e a _ j]) simp_all
  with e show ?thesis by blast
qed

end
